theory Spec2Isabelle
  imports Main "HOL-Library.AList"
begin

section \<open>JavaScript values used by the server\<close>

text \<open>
  A JavaScript \<open>Map\<close> keeps its keys in insertion order, \<open>set\<close> on a present key
  replaces the value in place, \<open>set\<close> on an absent key appends, and \<open>size\<close> counts the
  keys. It is an association list with distinct keys: \<open>map_of\<close> is \<open>get\<close>,
  \<open>AList.update\<close> is \<open>set\<close>, \<open>AList.delete\<close> is \<open>delete\<close>, \<open>length\<close> is \<open>size\<close>.
\<close>

type_synonym ('k, 'v) jsmap = "('k \<times> 'v) list"

abbreviation map_get :: "('k, 'v) jsmap \<Rightarrow> 'k \<Rightarrow> 'v option" where
  "map_get m k \<equiv> map_of m k"

abbreviation map_has :: "('k, 'v) jsmap \<Rightarrow> 'k \<Rightarrow> bool" where
  "map_has m k \<equiv> map_of m k \<noteq> None"

abbreviation map_set :: "('k, 'v) jsmap \<Rightarrow> 'k \<Rightarrow> 'v \<Rightarrow> ('k, 'v) jsmap" where
  "map_set m k v \<equiv> AList.update k v m"

abbreviation map_delete :: "('k, 'v) jsmap \<Rightarrow> 'k \<Rightarrow> ('k, 'v) jsmap" where
  "map_delete m k \<equiv> AList.delete k m"

abbreviation map_size :: "('k, 'v) jsmap \<Rightarrow> nat" where
  "map_size m \<equiv> length m"

text \<open>
  \<open>String.prototype.toUpperCase\<close> on ASCII strings: the letters \<open>a\<close> to \<open>z\<close> are mapped to
  \<open>A\<close> to \<open>Z\<close> and every other character is kept. The strings of this theory are strings
  of 8-bit characters and stand for ASCII strings. On a character outside ASCII
  JavaScript does otherwise (U+00DF becomes the two characters \<open>SS\<close>, U+00E9 becomes
  U+00C9); such strings are outside the model. The codes the server generates and the
  codes \<open>isValidSessionCode\<close> is meant to accept are ASCII.
\<close>

definition upperChar :: "char \<Rightarrow> char" where
  "upperChar c =
     (let n = (of_char c :: nat) in if 97 \<le> n \<and> n \<le> 122 then char_of (n - 32) else c)"

definition toUpperCase :: "string \<Rightarrow> string" where
  "toUpperCase s = map upperChar s"

text \<open>\<open>String.prototype.charAt\<close>: the empty string out of range.\<close>

definition charAt :: "string \<Rightarrow> nat \<Rightarrow> string" where
  "charAt s i = (if i < length s then [s ! i] else [])"

text \<open>A JavaScript string is truthy when it is present and not empty.\<close>

fun truthy :: "string option \<Rightarrow> bool" where
  "truthy None = False"
| "truthy (Some s) = (s \<noteq> [])"

section \<open>The session manager (class \<open>SessionManager\<close>)\<close>

record user =
  user_id :: string
  nickname :: string
  joinedAt :: int
  isAdmin :: bool
  clientIP :: "string option"

record banInfo =
  banNickname :: string
  bannedAt :: int
  reason :: string

record session =
  code :: string
  createdAt :: int
  lastActivity :: int
  adminId :: string
  users :: "(string, user) jsmap"
  publicKeys :: "(string, string) jsmap"
  bannedUsers :: "(string, banInfo) jsmap"

text \<open>The field \<open>this.sessions\<close>; the two constants of the constructor.\<close>

type_synonym session_map = "(string, session) jsmap"

definition SESSION_EXPIRY :: int where
  "SESSION_EXPIRY = 15 * 60 * 1000"

definition MAX_USERS :: nat where
  "MAX_USERS = 64"

definition alphabet :: string where
  "alphabet = ''ABCDEFGHIJKLMNOPQRSTUVWXYZ0123456789''"

text \<open>
  \<open>generateSessionCode\<close>: eight draws, the \<open>i\<close>-th being the value of
  \<open>Math.floor(Math.random() * alphabet.length)\<close> in iteration \<open>i\<close>. The draws are the
  argument \<open>rnd\<close>. Nothing is compared with the codes already in use.
\<close>

fun codeLoop :: "(nat \<Rightarrow> nat) \<Rightarrow> nat \<Rightarrow> nat \<Rightarrow> string \<Rightarrow> string" where
  "codeLoop rnd i 0 acc = acc"
| "codeLoop rnd i (Suc k) acc = codeLoop rnd (Suc i) k (acc @ charAt alphabet (rnd i))"

definition generateSessionCode :: "(nat \<Rightarrow> nat) \<Rightarrow> string" where
  "generateSessionCode rnd = codeLoop rnd 0 8 []"

text \<open>
  \<open>customNickname || this.generateNickname()\<close>: the generated nickname comes from a
  library and a random number; it is the argument \<open>gen\<close>.
\<close>

definition pickNickname :: "string option \<Rightarrow> string \<Rightarrow> string" where
  "pickNickname customNickname gen =
     (case customNickname of None \<Rightarrow> gen | Some n \<Rightarrow> if n \<noteq> [] then n else gen)"

text \<open>\<open>createSession\<close> returns \<open>{ code, nickname, session }\<close> and stores the session.\<close>

definition createSession ::
  "(nat \<Rightarrow> nat) \<Rightarrow> string \<Rightarrow> int \<Rightarrow> string \<Rightarrow> string option \<Rightarrow> session_map
     \<Rightarrow> (string \<times> string \<times> session) \<times> session_map" where
  "createSession rnd gen now creatorSocketId customNickname ss =
     (let c = generateSessionCode rnd;
          nick = pickNickname customNickname gen;
          s = \<lparr> code = c, createdAt = now, lastActivity = now, adminId = creatorSocketId,
                users = map_set [] creatorSocketId
                  \<lparr> user_id = creatorSocketId, nickname = nick, joinedAt = now,
                    isAdmin = True, clientIP = None \<rparr>,
                publicKeys = [], bannedUsers = [] \<rparr>
      in ((c, nick, s), map_set ss c s))"

text \<open>The object \<open>joinSession\<close> returns; absent fields are \<open>None\<close>.\<close>

record join_result =
  success :: bool
  error :: "string option"
  banned :: "bool option"
  bannedNickname :: "string option"
  res_nickname :: "string option"
  res_session :: "session option"

definition joinFailure :: "string \<Rightarrow> join_result" where
  "joinFailure e = \<lparr> success = False, error = Some e, banned = None, bannedNickname = None,
     res_nickname = None, res_session = None \<rparr>"

definition joinSession ::
  "string \<Rightarrow> int \<Rightarrow> string \<Rightarrow> string \<Rightarrow> string option \<Rightarrow> string option \<Rightarrow> session_map
     \<Rightarrow> join_result \<times> session_map" where
  "joinSession gen now c socketId customNickname ip ss =
     (case map_get ss (toUpperCase c) of
        None \<Rightarrow> (joinFailure ''Session not found'', ss)
      | Some s \<Rightarrow>
          if map_size (users s) \<ge> MAX_USERS
          then (joinFailure ''Session is full (max 64 users)'', ss)
          else if truthy ip \<and> map_has (bannedUsers s) (the ip)
          then (\<lparr> success = False,
                  error = Some ''You have been banned from this session. Contact the admin for approval.'',
                  banned = Some True,
                  bannedNickname = map_option banNickname (map_get (bannedUsers s) (the ip)),
                  res_nickname = None, res_session = None \<rparr>, ss)
          else
            let nick = pickNickname customNickname gen;
                s' = s\<lparr> users := map_set (users s) socketId
                          \<lparr> user_id = socketId, nickname = nick, joinedAt = now,
                            isAdmin = False, clientIP = ip \<rparr>,
                        lastActivity := now \<rparr>
            in (\<lparr> success = True, error = None, banned = None, bannedNickname = None,
                  res_nickname = Some nick, res_session = Some s' \<rparr>,
                map_set ss (toUpperCase c) s'))"

definition banUser :: "int \<Rightarrow> string \<Rightarrow> string option \<Rightarrow> string \<Rightarrow> session_map \<Rightarrow> bool \<times> session_map" where
  "banUser now c ip nick ss =
     (case map_get ss (toUpperCase c) of
        None \<Rightarrow> (False, ss)
      | Some s \<Rightarrow>
          if truthy ip
          then (True, map_set ss (toUpperCase c)
                  (s\<lparr> bannedUsers := map_set (bannedUsers s) (the ip)
                        \<lparr> banNickname = nick, bannedAt = now, reason = ''Kicked by admin'' \<rparr> \<rparr>))
          else (False, ss))"

definition unbanUser :: "string \<Rightarrow> string \<Rightarrow> session_map \<Rightarrow> bool \<times> session_map" where
  "unbanUser c ip ss =
     (case map_get ss (toUpperCase c) of
        None \<Rightarrow> (False, ss)
      | Some s \<Rightarrow>
          (map_has (bannedUsers s) ip,
           map_set ss (toUpperCase c) (s\<lparr> bannedUsers := map_delete (bannedUsers s) ip \<rparr>)))"

definition getBannedUsers :: "string \<Rightarrow> session_map \<Rightarrow> (string \<times> string \<times> int) list" where
  "getBannedUsers c ss =
     (case map_get ss (toUpperCase c) of
        None \<Rightarrow> []
      | Some s \<Rightarrow> map (\<lambda>(ip, info). (ip, banNickname info, bannedAt info)) (bannedUsers s))"

definition getSession :: "string \<Rightarrow> session_map \<Rightarrow> session option" where
  "getSession c ss = map_get ss (toUpperCase c)"

text \<open>\<open>getSessionBySocketId\<close>: the first session, in insertion order, that has the socket.\<close>

fun getSessionBySocketId :: "string \<Rightarrow> session_map \<Rightarrow> (string \<times> session) option" where
  "getSessionBySocketId socketId [] = None"
| "getSessionBySocketId socketId ((c, s) # ss) =
     (if map_has (users s) socketId then Some (c, s) else getSessionBySocketId socketId ss)"

text \<open>The object \<open>removeUser\<close> returns; \<open>None\<close> stands for \<open>null\<close>.\<close>

record remove_result =
  rem_code :: string
  rem_user :: "user option"
  sessionDestroyed :: bool
  remainingUsers :: "nat option"

definition removeUser :: "int \<Rightarrow> string \<Rightarrow> session_map \<Rightarrow> remove_result option \<times> session_map" where
  "removeUser now socketId ss =
     (case getSessionBySocketId socketId ss of
        None \<Rightarrow> (None, ss)
      | Some (c, s) \<Rightarrow>
          let u = map_get (users s) socketId;
              s' = s\<lparr> users := map_delete (users s) socketId,
                      publicKeys := map_delete (publicKeys s) socketId \<rparr>
          in if map_size (users s') = 0
             then (Some \<lparr> rem_code = c, rem_user = u, sessionDestroyed = True,
                          remainingUsers = None \<rparr>,
                   map_delete ss c)
             else (Some \<lparr> rem_code = c, rem_user = u, sessionDestroyed = False,
                          remainingUsers = Some (map_size (users s')) \<rparr>,
                   map_set ss c (s'\<lparr> lastActivity := now \<rparr>)))"

definition storePublicKey :: "string \<Rightarrow> string \<Rightarrow> string \<Rightarrow> session_map \<Rightarrow> bool \<times> session_map" where
  "storePublicKey c socketId publicKey ss =
     (case map_get ss (toUpperCase c) of
        None \<Rightarrow> (False, ss)
      | Some s \<Rightarrow>
          (True, map_set ss (toUpperCase c)
                   (s\<lparr> publicKeys := map_set (publicKeys s) socketId publicKey \<rparr>)))"

definition getUsers :: "string \<Rightarrow> session_map \<Rightarrow> user list" where
  "getUsers c ss = (case map_get ss (toUpperCase c) of None \<Rightarrow> [] | Some s \<Rightarrow> map snd (users s))"

definition updateActivity :: "int \<Rightarrow> string \<Rightarrow> session_map \<Rightarrow> session_map" where
  "updateActivity now c ss =
     (case map_get ss (toUpperCase c) of
        None \<Rightarrow> ss
      | Some s \<Rightarrow> map_set ss (toUpperCase c) (s\<lparr> lastActivity := now \<rparr>))"

text \<open>\<open>cleanupExpiredSessions\<close>: every session idle for more than the expiry is deleted.\<close>

definition cleanupExpiredSessions :: "int \<Rightarrow> session_map \<Rightarrow> session_map" where
  "cleanupExpiredSessions now ss =
     filter (\<lambda>(c, s). \<not> (now - lastActivity s > SESSION_EXPIRY)) ss"

definition getActiveSessionCount :: "session_map \<Rightarrow> nat" where
  "getActiveSessionCount ss = map_size ss"

section \<open>Abuse control (module state of \<open>socketHandlers.js\<close>)\<close>

record rate =
  count :: int
  windowStart :: int

text \<open>
  \<open>RATE_LIMIT_WINDOW\<close> and \<open>RATE_LIMIT_MAX\<close> are module variables that
  \<open>setupSocketHandlers\<close> sets from the server's configuration (1000 and 5 by default).
\<close>

record config =
  RATE_LIMIT_WINDOW :: int
  RATE_LIMIT_MAX :: int

definition defaultConfig :: config where
  "defaultConfig = \<lparr> RATE_LIMIT_WINDOW = 1000, RATE_LIMIT_MAX = 5 \<rparr>"

definition ABUSE_THRESHOLD :: int where
  "ABUSE_THRESHOLD = 50"

definition ABUSE_WINDOW :: int where
  "ABUSE_WINDOW = 60000"

definition BLOCK_TTL :: int where
  "BLOCK_TTL = 300000"

text \<open>
  A pending \<open>setTimeout\<close> of \<open>trackAbuse\<close>: the time it is due and the socket id, address
  and abuse key its callback deletes.
\<close>

record timer =
  due :: int
  t_socketId :: string
  t_ip :: string
  t_abuseKey :: string

record limiter =
  messageRateLimiter :: "(string, rate) jsmap"
  socketRateLimiters :: "(string, rate) jsmap"
  blockedSockets :: "string set"
  blockedIPs :: "string set"
  abuseCounter :: "(string, rate) jsmap"
  timers :: "timer list"

definition emptyLimiter :: limiter where
  "emptyLimiter = \<lparr> messageRateLimiter = [], socketRateLimiters = [], blockedSockets = {},
     blockedIPs = {}, abuseCounter = [], timers = [] \<rparr>"

definition abuseKeyOf :: "string \<Rightarrow> string \<Rightarrow> string" where
  "abuseKeyOf ip socketId = ip @ '':'' @ socketId"

definition trackAbuse :: "int \<Rightarrow> string \<Rightarrow> string \<Rightarrow> limiter \<Rightarrow> limiter" where
  "trackAbuse now socketId ip l =
     (let abuseKey = abuseKeyOf ip socketId in
      case map_get (abuseCounter l) abuseKey of
        None \<Rightarrow>
          l\<lparr> abuseCounter := map_set (abuseCounter l) abuseKey \<lparr> count = 1, windowStart = now \<rparr> \<rparr>
      | Some abuse \<Rightarrow>
          if now - windowStart abuse > ABUSE_WINDOW
          then l\<lparr> abuseCounter :=
                    map_set (abuseCounter l) abuseKey \<lparr> count = 1, windowStart = now \<rparr> \<rparr>
          else
            let l1 = l\<lparr> abuseCounter :=
                          map_set (abuseCounter l) abuseKey (abuse\<lparr> count := count abuse + 1 \<rparr>) \<rparr>
            in if count abuse + 1 \<ge> ABUSE_THRESHOLD
               then l1\<lparr> blockedSockets := insert socketId (blockedSockets l1),
                        blockedIPs := insert ip (blockedIPs l1),
                        timers := timers l1 @
                          [\<lparr> due = now + BLOCK_TTL, t_socketId = socketId, t_ip = ip,
                             t_abuseKey = abuseKey \<rparr>] \<rparr>
               else l1)"

text \<open>The callback of the timer.\<close>

definition unblock :: "timer \<Rightarrow> limiter \<Rightarrow> limiter" where
  "unblock t l =
     l\<lparr> blockedSockets := blockedSockets l - {t_socketId t},
        blockedIPs := blockedIPs l - {t_ip t},
        abuseCounter := map_delete (abuseCounter l) (t_abuseKey t) \<rparr>"

text \<open>The event loop at time \<open>now\<close>: every timer that is due runs, in the order it was set.\<close>

definition runTimers :: "int \<Rightarrow> limiter \<Rightarrow> limiter" where
  "runTimers now l =
     (foldl (\<lambda>l' t. unblock t l') l (filter (\<lambda>t. due t \<le> now) (timers l)))
       \<lparr> timers := filter (\<lambda>t. \<not> due t \<le> now) (timers l) \<rparr>"

definition isBlocked :: "string \<Rightarrow> string \<Rightarrow> limiter \<Rightarrow> bool" where
  "isBlocked socketId ip l \<longleftrightarrow> socketId \<in> blockedSockets l \<or> ip \<in> blockedIPs l"

text \<open>The second half of \<open>checkRateLimit\<close>: the limit of the address, three times as large.\<close>

definition checkIPLimit :: "config \<Rightarrow> int \<Rightarrow> string \<Rightarrow> string \<Rightarrow> limiter \<Rightarrow> bool \<times> limiter" where
  "checkIPLimit cfg now socketId ip l =
     (let IP_RATE_MAX = RATE_LIMIT_MAX cfg * 3 in
      case map_get (socketRateLimiters l) ip of
        None \<Rightarrow>
          (True, l\<lparr> socketRateLimiters :=
                     map_set (socketRateLimiters l) ip \<lparr> count = 1, windowStart = now \<rparr> \<rparr>)
      | Some ipLimit \<Rightarrow>
          if now - windowStart ipLimit > RATE_LIMIT_WINDOW cfg
          then (True, l\<lparr> socketRateLimiters :=
                          map_set (socketRateLimiters l) ip \<lparr> count = 1, windowStart = now \<rparr> \<rparr>)
          else if count ipLimit \<ge> IP_RATE_MAX
          then (False, trackAbuse now socketId ip l)
          else (True, l\<lparr> socketRateLimiters :=
                          map_set (socketRateLimiters l) ip (ipLimit\<lparr> count := count ipLimit + 1 \<rparr>) \<rparr>))"

definition checkRateLimit :: "config \<Rightarrow> int \<Rightarrow> string \<Rightarrow> string \<Rightarrow> limiter \<Rightarrow> bool \<times> limiter" where
  "checkRateLimit cfg now socketId ip l =
     (case map_get (messageRateLimiter l) socketId of
        None \<Rightarrow>
          checkIPLimit cfg now socketId ip
            (l\<lparr> messageRateLimiter :=
                  map_set (messageRateLimiter l) socketId \<lparr> count = 1, windowStart = now \<rparr> \<rparr>)
      | Some userLimit \<Rightarrow>
          if now - windowStart userLimit > RATE_LIMIT_WINDOW cfg
          then checkIPLimit cfg now socketId ip
                 (l\<lparr> messageRateLimiter :=
                       map_set (messageRateLimiter l) socketId \<lparr> count = 1, windowStart = now \<rparr> \<rparr>)
          else if count userLimit \<ge> RATE_LIMIT_MAX cfg
          then (False, trackAbuse now socketId ip l)
          else checkIPLimit cfg now socketId ip
                 (l\<lparr> messageRateLimiter :=
                       map_set (messageRateLimiter l) socketId
                         (userLimit\<lparr> count := count userLimit + 1 \<rparr>) \<rparr>))"

text \<open>The sweep that runs every five minutes over the two rate maps.\<close>

definition cleanupRateLimiters :: "int \<Rightarrow> limiter \<Rightarrow> limiter" where
  "cleanupRateLimiters now l =
     l\<lparr> messageRateLimiter :=
          filter (\<lambda>(k, d). \<not> (now - windowStart d > 60000)) (messageRateLimiter l),
        socketRateLimiters :=
          filter (\<lambda>(k, d). \<not> (now - windowStart d > 60000)) (socketRateLimiters l) \<rparr>"

section \<open>The relay dispatcher (\<open>setupSocketHandlers\<close>)\<close>

text \<open>
  The functions \<open>setupSocketHandlers\<close> receives in its argument \<open>security\<close>: the
  validation front door.
\<close>

record security =
  sanitizeInput :: "string \<Rightarrow> nat \<Rightarrow> string"
  isValidSessionCode :: "string \<Rightarrow> bool"

text \<open>
  The state of the server: the session manager's map, the abuse control, and the
  transport's table of connected sockets (\<open>io.sockets.sockets\<close>), each with the first
  non-empty value of \<open>socket.clientIP\<close>, the forwarded-for header and the handshake
  address (empty when there is none).
\<close>

record server =
  sessions :: session_map
  limits :: limiter
  sockets :: "(string, string) jsmap"

definition initialServer :: server where
  "initialServer = \<lparr> sessions = [], limits = emptyLimiter, sockets = [] \<rparr>"

text \<open>
  What a handler sends: the acknowledgement given to the callback, or an event emitted
  to the calling socket, to a room, to a room without the caller, or to one socket.
  Of an emitted event the name is kept.
\<close>

datatype dest = Caller | Room string | Others string | Socket string

datatype reply =
    Fail string
  | Rejected join_result
  | Created string string "user list" string
  | Joined string string "user list" "string option"
  | Done

datatype out = Callback reply | Emit dest string | ForceDisconnect string

definition resolveIP :: "string \<Rightarrow> string" where
  "resolveIP addr = (if addr \<noteq> [] then addr else ''unknown'')"

definition socketIP :: "string \<Rightarrow> server \<Rightarrow> string" where
  "socketIP socketId sv =
     (case map_get (sockets sv) socketId of None \<Rightarrow> ''unknown'' | Some a \<Rightarrow> resolveIP a)"

text \<open>
  The pattern \<open>/^[a-zA-Z0-9_\s]{1,30}$/\<close> on ASCII strings: of the characters that \<open>\s\<close>
  matches, the ASCII ones are the space and the characters 9 to 13. In JavaScript \<open>\s\<close>
  also matches white space outside ASCII (U+00A0, U+2028 and others), which is outside
  the model.
\<close>

definition nickChar :: "char \<Rightarrow> bool" where
  "nickChar c =
     (let n = (of_char c :: nat)
      in (97 \<le> n \<and> n \<le> 122) \<or> (65 \<le> n \<and> n \<le> 90) \<or> (48 \<le> n \<and> n \<le> 57) \<or> n = 95
         \<or> n = 32 \<or> (9 \<le> n \<and> n \<le> 13))"

definition nicknamePattern :: "string \<Rightarrow> bool" where
  "nicknamePattern s \<longleftrightarrow> 1 \<le> length s \<and> length s \<le> 30 \<and> list_all nickChar s"

definition requestNickname :: "security \<Rightarrow> string option \<Rightarrow> string option" where
  "requestNickname sec raw =
     (if truthy raw
      then let n = sanitizeInput sec (the raw) 30
           in if n \<noteq> [] \<and> \<not> nicknamePattern n then None else Some n
      else None)"

definition onConnection :: "string \<Rightarrow> string \<Rightarrow> server \<Rightarrow> out list \<times> server" where
  "onConnection socketId addr sv =
     (if isBlocked socketId (resolveIP addr) (limits sv)
      then ([ForceDisconnect socketId], sv)
      else ([], sv\<lparr> sockets := map_set (sockets sv) socketId addr \<rparr>))"

definition onCreateSession ::
  "security \<Rightarrow> (nat \<Rightarrow> nat) \<Rightarrow> string \<Rightarrow> int \<Rightarrow> string \<Rightarrow> string option \<Rightarrow> server
     \<Rightarrow> out list \<times> server" where
  "onCreateSession sec rnd gen now socketId rawNickname sv =
     (if isBlocked socketId (socketIP socketId sv) (limits sv) then ([], sv)
      else if getActiveSessionCount (sessions sv) \<ge> 1000
      then ([Callback (Fail ''Server is at capacity. Please try again later.'')], sv)
      else
        case createSession rnd gen now socketId (requestNickname sec rawNickname) (sessions sv) of
          ((c, nick, s), ss') \<Rightarrow>
            ([Callback (Created c nick (getUsers c ss') socketId)], sv\<lparr> sessions := ss' \<rparr>))"

definition onJoinSession ::
  "security \<Rightarrow> string \<Rightarrow> int \<Rightarrow> string \<Rightarrow> string option \<Rightarrow> string option \<Rightarrow> server
     \<Rightarrow> out list \<times> server" where
  "onJoinSession sec gen now socketId rawCode rawNickname sv =
     (if isBlocked socketId (socketIP socketId sv) (limits sv) then ([], sv)
      else if \<not> truthy rawCode then ([Callback (Fail ''Session code required'')], sv)
      else
        let c = toUpperCase (sanitizeInput sec (the rawCode) 10) in
        if \<not> isValidSessionCode sec c
        then ([Callback (Fail ''Invalid session code format'')], sv)
        else
          case joinSession gen now c socketId (requestNickname sec rawNickname)
                 (Some (socketIP socketId sv)) (sessions sv) of
            (r, ss') \<Rightarrow>
              (case (success r, res_nickname r, res_session r) of
                 (True, Some nick, Some s) \<Rightarrow>
                   ([Emit (Others (toUpperCase c)) ''user-joined'',
                     Callback (Joined (toUpperCase c) nick (getUsers (toUpperCase c) ss')
                                (if adminId s \<noteq> [] then Some (adminId s) else None))],
                    sv\<lparr> sessions := ss' \<rparr>)
               | _ \<Rightarrow> ([Callback (Rejected r)], sv\<lparr> sessions := ss' \<rparr>)))"

text \<open>
  The fields of a \<open>send-message\<close> payload the handler looks at; of the encrypted text
  and the raw media their lengths (0 when absent).
\<close>

record message =
  msg_code :: "string option"
  encryptedLength :: int
  rawMediaLength :: int
  iv :: "string option"
  messageId :: "string option"

definition onSendMessage ::
  "security \<Rightarrow> config \<Rightarrow> int \<Rightarrow> string \<Rightarrow> message \<Rightarrow> server \<Rightarrow> out list \<times> server" where
  "onSendMessage sec cfg now socketId m sv =
     (let ip = socketIP socketId sv in
      if isBlocked socketId ip (limits sv) then ([], sv)
      else if \<not> truthy (msg_code m) then ([], sv)
      else
        let c = the (msg_code m) in
        if \<not> isValidSessionCode sec c then ([], sv)
        else
          case checkRateLimit cfg now socketId ip (limits sv) of
            (ok, l') \<Rightarrow>
              let sv1 = sv\<lparr> limits := l' \<rparr> in
              if \<not> ok then ([Emit Caller ''rate-limited''], sv1)
              else if encryptedLength m + rawMediaLength m > 30000000 then ([], sv1)
              else if \<not> truthy (iv m) \<or> length (the (iv m)) > 100 then ([], sv1)
              else if \<not> truthy (messageId m) \<or> length (the (messageId m)) > 50 then ([], sv1)
              else
                (case getSessionBySocketId socketId (sessions sv1) of
                   None \<Rightarrow> ([Emit Caller ''error''], sv1)
                 | Some (c', s) \<Rightarrow>
                     if c' \<noteq> toUpperCase c then ([Emit Caller ''error''], sv1)
                     else
                       (case map_get (users s) socketId of
                          None \<Rightarrow> ([], sv1)
                        | Some u \<Rightarrow>
                            ([Emit (Others (toUpperCase c)) ''new-message''],
                             sv1\<lparr> sessions := updateActivity now c (sessions sv1) \<rparr>))))"

definition onTyping :: "string \<Rightarrow> string option \<Rightarrow> server \<Rightarrow> out list \<times> server" where
  "onTyping socketId rawCode sv =
     (if \<not> truthy rawCode then ([], sv)
      else
        case getSessionBySocketId socketId (sessions sv) of
          None \<Rightarrow> ([], sv)
        | Some (c', s) \<Rightarrow>
            (case map_get (users s) socketId of
               None \<Rightarrow> ([], sv)
             | Some u \<Rightarrow> ([Emit (Others (toUpperCase (the rawCode))) ''user-typing''], sv)))"

definition onSharePublicKey ::
  "string \<Rightarrow> string option \<Rightarrow> string option \<Rightarrow> server \<Rightarrow> out list \<times> server" where
  "onSharePublicKey socketId rawCode rawKey sv =
     (if \<not> truthy rawCode \<or> \<not> truthy rawKey then ([], sv)
      else ([Emit (Others (the rawCode)) ''public-key-shared''],
            sv\<lparr> sessions := snd (storePublicKey (the rawCode) socketId (the rawKey) (sessions sv)) \<rparr>))"

text \<open>
  \<open>session.users.delete(targetUserId)\<close> in the \<open>kick-user\<close> handler: \<open>session\<close> is the
  object that \<open>getSession(code)\<close> returned, the one the map holds, so the deletion shows
  in the map.
\<close>

definition usersDelete :: "string \<Rightarrow> string \<Rightarrow> session_map \<Rightarrow> session_map" where
  "usersDelete c targetUserId ss =
     (case map_get ss (toUpperCase c) of
        None \<Rightarrow> ss
      | Some s \<Rightarrow> map_set ss (toUpperCase c) (s\<lparr> users := map_delete (users s) targetUserId \<rparr>))"

definition onKickUser ::
  "int \<Rightarrow> string \<Rightarrow> string option \<Rightarrow> string option \<Rightarrow> server \<Rightarrow> out list \<times> server" where
  "onKickUser now socketId rawCode rawTarget sv =
     (if \<not> truthy rawCode \<or> \<not> truthy rawTarget
      then ([Callback (Fail ''Missing required data'')], sv)
      else
        let c = the rawCode; targetUserId = the rawTarget in
        case getSession c (sessions sv) of
          None \<Rightarrow> ([Callback (Fail ''Session not found'')], sv)
        | Some s \<Rightarrow>
            if adminId s \<noteq> socketId then ([Callback (Fail ''Only admin can kick users'')], sv)
            else if targetUserId = socketId then ([Callback (Fail ''Cannot kick yourself'')], sv)
            else
              (case map_get (users s) targetUserId of
                 None \<Rightarrow> ([Callback (Fail ''User not found in session'')], sv)
               | Some targetUser \<Rightarrow>
                   let targetSocket = map_get (sockets sv) targetUserId;
                       ss1 = (case targetSocket of
                                None \<Rightarrow> sessions sv
                              | Some targetIP \<Rightarrow>
                                  if targetIP \<noteq> []
                                  then snd (banUser now c (Some targetIP) (nickname targetUser)
                                              (sessions sv))
                                  else sessions sv);
                       ss2 = usersDelete c targetUserId ss1
                   in ((case targetSocket of
                          None \<Rightarrow> []
                        | Some a \<Rightarrow> [Emit (Socket targetUserId) ''kicked''])
                       @ [Emit (Room c) ''user-kicked'', Emit Caller ''banned-users-updated'',
                          Callback Done],
                       sv\<lparr> sessions := ss2 \<rparr>)))"

definition onUnbanUser ::
  "string \<Rightarrow> string option \<Rightarrow> string option \<Rightarrow> server \<Rightarrow> out list \<times> server" where
  "onUnbanUser socketId rawCode rawIP sv =
     (if \<not> truthy rawCode \<or> \<not> truthy rawIP
      then ([Callback (Fail ''Missing required data'')], sv)
      else
        let c = the rawCode; userIP = the rawIP in
        case getSession c (sessions sv) of
          None \<Rightarrow> ([Callback (Fail ''Session not found'')], sv)
        | Some s \<Rightarrow>
            if adminId s \<noteq> socketId then ([Callback (Fail ''Only admin can unban users'')], sv)
            else
              (case unbanUser c userIP (sessions sv) of
                 (unbanned, ss') \<Rightarrow>
                   if unbanned
                   then ([Emit Caller ''banned-users-updated'', Callback Done],
                         sv\<lparr> sessions := ss' \<rparr>)
                   else ([Callback (Fail ''User not found in ban list'')],
                         sv\<lparr> sessions := ss' \<rparr>)))"

text \<open>
  The \<open>disconnect\<close> handler: \<open>removeUser\<close>, then the socket's entry of
  \<open>messageRateLimiter\<close> is deleted; the transport forgets the socket.
\<close>

definition onDisconnect :: "int \<Rightarrow> string \<Rightarrow> server \<Rightarrow> out list \<times> server" where
  "onDisconnect now socketId sv =
     (case removeUser now socketId (sessions sv) of
        (res, ss') \<Rightarrow>
          ((case res of
              None \<Rightarrow> []
            | Some r \<Rightarrow>
                if sessionDestroyed r then [] else [Emit (Room (rem_code r)) ''user-left'']),
           sv\<lparr> sessions := ss',
               limits := (limits sv)\<lparr> messageRateLimiter :=
                           map_delete (messageRateLimiter (limits sv)) socketId \<rparr>,
               sockets := map_delete (sockets sv) socketId \<rparr>))"

definition onLeaveSession :: "int \<Rightarrow> string \<Rightarrow> server \<Rightarrow> out list \<times> server" where
  "onLeaveSession now socketId sv =
     (case removeUser now socketId (sessions sv) of
        (res, ss') \<Rightarrow>
          ((case res of
              None \<Rightarrow> []
            | Some r \<Rightarrow>
                if sessionDestroyed r then [] else [Emit (Room (rem_code r)) ''user-left'']),
           sv\<lparr> sessions := ss' \<rparr>))"

subsection \<open>Events and runs\<close>

text \<open>
  What a connected socket can send (the handlers that only read and answer are left
  out), and what happens to the server: a new connection, an event of a connected
  socket, and the three periodic or delayed tasks.
\<close>

datatype request =
    CreateSession "string option" "nat \<Rightarrow> nat" string
  | JoinSession "string option" "string option" string
  | SendMessage message
  | Typing "string option"
  | SharePublicKey "string option" "string option"
  | KickUser "string option" "string option"
  | UnbanUser "string option" "string option"
  | LeaveSession
  | Disconnect

datatype event =
    Connection string string
  | FromSocket string request
  | SessionSweep
  | RateSweep
  | TimersDue

fun handle ::
  "security \<Rightarrow> config \<Rightarrow> int \<Rightarrow> string \<Rightarrow> request \<Rightarrow> server \<Rightarrow> out list \<times> server" where
  "handle sec cfg now sid (CreateSession nick rnd gen) sv = onCreateSession sec rnd gen now sid nick sv"
| "handle sec cfg now sid (JoinSession c nick gen) sv = onJoinSession sec gen now sid c nick sv"
| "handle sec cfg now sid (SendMessage m) sv = onSendMessage sec cfg now sid m sv"
| "handle sec cfg now sid (Typing c) sv = onTyping sid c sv"
| "handle sec cfg now sid (SharePublicKey c k) sv = onSharePublicKey sid c k sv"
| "handle sec cfg now sid (KickUser c t) sv = onKickUser now sid c t sv"
| "handle sec cfg now sid (UnbanUser c ip) sv = onUnbanUser sid c ip sv"
| "handle sec cfg now sid LeaveSession sv = onLeaveSession now sid sv"
| "handle sec cfg now sid Disconnect sv = onDisconnect now sid sv"

text \<open>One step at time \<open>now\<close>. Only a connected socket has handlers.\<close>

fun step :: "security \<Rightarrow> config \<Rightarrow> int \<times> event \<Rightarrow> server \<Rightarrow> out list \<times> server" where
  "step sec cfg (now, Connection sid addr) sv = onConnection sid addr sv"
| "step sec cfg (now, FromSocket sid req) sv =
     (if map_has (sockets sv) sid then handle sec cfg now sid req sv else ([], sv))"
| "step sec cfg (now, SessionSweep) sv =
     ([], sv\<lparr> sessions := cleanupExpiredSessions now (sessions sv) \<rparr>)"
| "step sec cfg (now, RateSweep) sv = ([], sv\<lparr> limits := cleanupRateLimiters now (limits sv) \<rparr>)"
| "step sec cfg (now, TimersDue) sv = ([], sv\<lparr> limits := runTimers now (limits sv) \<rparr>)"

definition run :: "security \<Rightarrow> config \<Rightarrow> (int \<times> event) list \<Rightarrow> server" where
  "run sec cfg evs = foldl (\<lambda>sv e. snd (step sec cfg e sv)) initialServer evs"

section \<open>Vocabulary of the properties\<close>

text \<open>
  A session map is well formed when its keys are distinct and in upper case and every
  session's member map has distinct keys and at most \<open>MAX_USERS\<close> of them.
\<close>

definition wellFormed :: "session_map \<Rightarrow> bool" where
  "wellFormed ss \<longleftrightarrow>
     distinct (map fst ss) \<and>
     (\<forall>(k, s) \<in> set ss.
        toUpperCase k = k \<and> distinct (map fst (users s)) \<and> map_size (users s) \<le> MAX_USERS)"

text \<open>The defaults \<open>setupSocketHandlers\<close> gives the two validation functions.\<close>

definition defaultSecurity :: security where
  "defaultSecurity = \<lparr> sanitizeInput = (\<lambda>s n. s), isValidSessionCode = (\<lambda>c. True) \<rparr>"

text \<open>Draws that are all 0 give the code \<open>AAAAAAAA\<close>; draws that are all 1 give \<open>BBBBBBBB\<close>.\<close>

definition zeroDraws :: "nat \<Rightarrow> nat" where
  "zeroDraws i = 0"

definition oneDraws :: "nat \<Rightarrow> nat" where
  "oneDraws i = 1"

text \<open>Two sockets connect; the first creates a session and the second joins it.\<close>

definition twoMembers :: "(int \<times> event) list" where
  "twoMembers =
     [(0, Connection ''s1'' ''10.0.0.1''),
      (1, Connection ''s2'' ''10.0.0.2''),
      (2, FromSocket ''s1'' (CreateSession None zeroDraws ''RedFox1'')),
      (3, FromSocket ''s2'' (JoinSession (Some ''aaaaaaaa'') (Some ''Bob'') ''BlueOwl2''))]"

text \<open>One socket connects and creates a session.\<close>

definition oneMember :: "(int \<times> event) list" where
  "oneMember =
     [(0, Connection ''s1'' ''10.0.0.1''),
      (2, FromSocket ''s1'' (CreateSession None zeroDraws ''RedFox1''))]"

definition oneMemberSession :: session where
  "oneMemberSession =
     \<lparr> code = ''AAAAAAAA'', createdAt = 2, lastActivity = 2, adminId = ''s1'',
       users = [(''s1'', \<lparr> user_id = ''s1'', nickname = ''RedFox1'', joinedAt = 2,
                          isAdmin = True, clientIP = None \<rparr>)],
       publicKeys = [], bannedUsers = [] \<rparr>"

text \<open>The session after the events of \<open>twoMembers\<close>.\<close>

definition twoMemberSession :: session where
  "twoMemberSession =
     \<lparr> code = ''AAAAAAAA'', createdAt = 2, lastActivity = 3, adminId = ''s1'',
       users = [(''s1'', \<lparr> user_id = ''s1'', nickname = ''RedFox1'', joinedAt = 2,
                          isAdmin = True, clientIP = None \<rparr>),
                (''s2'', \<lparr> user_id = ''s2'', nickname = ''Bob'', joinedAt = 3,
                          isAdmin = False, clientIP = Some ''10.0.0.2'' \<rparr>)],
       publicKeys = [], bannedUsers = [] \<rparr>"

text \<open>
  Sixty-four sockets \<open>g00\<close> to \<open>g63\<close>, each with an address of its own. \<open>g00\<close> creates a
  session and \<open>g01\<close> to \<open>g62\<close> join it; then Mallory joins from 10.0.0.9 as the 64th
  member, the admin kicks Mallory, and \<open>g63\<close> takes the free place.
\<close>

definition digit2 :: "nat \<Rightarrow> string" where
  "digit2 i = [char_of (48 + i div 10), char_of (48 + i mod 10)]"

definition guest :: "nat \<Rightarrow> string" where
  "guest i = CHR ''g'' # digit2 i"

definition guestAddress :: "nat \<Rightarrow> string" where
  "guestAddress i = ''10.0.1.'' @ digit2 i"

definition guestJoins :: "int \<Rightarrow> nat \<Rightarrow> (int \<times> event) list" where
  "guestJoins t i =
     [(t, Connection (guest i) (guestAddress i)),
      (t, FromSocket (guest i) (JoinSession (Some ''AAAAAAAA'') (Some ''Guest'') ''GreyCat3''))]"

definition fullRun :: "(int \<times> event) list" where
  "fullRun =
     [(1, Connection (guest 0) (guestAddress 0)),
      (1, FromSocket (guest 0) (CreateSession (Some ''Guest'') zeroDraws ''RedFox1''))]
     @ concat (map (guestJoins 1) [1..<63])
     @ [(1, Connection ''m'' ''10.0.0.9''),
        (1, FromSocket ''m'' (JoinSession (Some ''AAAAAAAA'') (Some ''Mallory'') ''GreyCat3'')),
        (4, FromSocket (guest 0) (KickUser (Some ''AAAAAAAA'') (Some ''m'')))]
     @ guestJoins 5 63"

text \<open>The session after these events: 64 members and one banned address.\<close>

definition crowd :: "(string, user) jsmap" where
  "crowd =
     map (\<lambda>i. (guest i,
               \<lparr> user_id = guest i, nickname = ''Guest'', joinedAt = (if i = 63 then 5 else 1),
                 isAdmin = (i = 0),
                 clientIP = (if i = 0 then None else Some (guestAddress i)) \<rparr>))
       [0..<64]"

definition fullSession :: session where
  "fullSession =
     \<lparr> code = ''AAAAAAAA'', createdAt = 1, lastActivity = 5, adminId = guest 0,
       users = crowd, publicKeys = [],
       bannedUsers = [(''10.0.0.9'', \<lparr> banNickname = ''Mallory'', bannedAt = 4,
                                       reason = ''Kicked by admin'' \<rparr>)] \<rparr>"

definition fullRegistry :: session_map where
  "fullRegistry = [(''AAAAAAAA'', fullSession)]"

text \<open>The events of one socket at the given times, checked one after the other.\<close>

fun checkAll :: "config \<Rightarrow> int list \<Rightarrow> string \<Rightarrow> string \<Rightarrow> limiter \<Rightarrow> bool list \<times> limiter" where
  "checkAll cfg [] socketId ip l = ([], l)"
| "checkAll cfg (t # ts) socketId ip l =
     (case checkRateLimit cfg t socketId ip l of
        (ok, l') \<Rightarrow> (case checkAll cfg ts socketId ip l' of (oks, l'') \<Rightarrow> (ok # oks, l'')))"

text \<open>Both windows of a socket and its address hold \<open>k\<close> events since \<open>t0\<close>.\<close>

definition counted :: "string \<Rightarrow> string \<Rightarrow> int \<Rightarrow> int \<Rightarrow> limiter \<Rightarrow> bool" where
  "counted socketId ip k t0 l \<longleftrightarrow>
     map_get (messageRateLimiter l) socketId = Some \<lparr> count = k, windowStart = t0 \<rparr> \<and>
     map_get (socketRateLimiters l) ip = Some \<lparr> count = k, windowStart = t0 \<rparr>"

text \<open>
  A third socket joins from the address 10.0.0.9 as Mallory and the admin kicks it; then a
  fourth socket connects from that address.
\<close>

definition kickedRun :: "(int \<times> event) list" where
  "kickedRun =
     twoMembers @
     [(4, Connection ''s3'' ''10.0.0.9''),
      (5, FromSocket ''s3'' (JoinSession (Some ''AAAAAAAA'') (Some ''Mallory'') ''GreyCat3'')),
      (6, FromSocket ''s1'' (KickUser (Some ''AAAAAAAA'') (Some ''s3''))),
      (7, Connection ''s4'' ''10.0.0.9'')]"

definition kickedSession :: session where
  "kickedSession =
     twoMemberSession\<lparr> lastActivity := 5,
       bannedUsers := [(''10.0.0.9'', \<lparr> banNickname = ''Mallory'', bannedAt = 6,
                                       reason = ''Kicked by admin'' \<rparr>)] \<rparr>"

text \<open>The result of \<open>joinSession\<close> for a banned address.\<close>

definition bannedResult :: "string \<Rightarrow> join_result" where
  "bannedResult nick =
     \<lparr> success = False,
       error = Some ''You have been banned from this session. Contact the admin for approval.'',
       banned = Some True, bannedNickname = Some nick,
       res_nickname = None, res_session = None \<rparr>"

text \<open>An address is banned in the session stored under a key.\<close>

definition bannedIn :: "string \<Rightarrow> string \<Rightarrow> session_map \<Rightarrow> bool" where
  "bannedIn k ip ss = (case map_get ss k of None \<Rightarrow> False | Some s \<Rightarrow> map_has (bannedUsers s) ip)"

text \<open>The event is an \<open>unban-user\<close> for this key and address.\<close>

fun unbanOf :: "event \<Rightarrow> string \<Rightarrow> string \<Rightarrow> bool" where
  "unbanOf (FromSocket sid (UnbanUser c a)) k ip \<longleftrightarrow> truthy c \<and> toUpperCase (the c) = k \<and> a = Some ip"
| "unbanOf _ k ip \<longleftrightarrow> False"

text \<open>The event is a \<open>create-session\<close> whose draws give this code.\<close>

fun createsCode :: "event \<Rightarrow> string \<Rightarrow> bool" where
  "createsCode (FromSocket sid (CreateSession nick rnd gen)) k \<longleftrightarrow> generateSessionCode rnd = k"
| "createsCode _ k \<longleftrightarrow> False"

text \<open>The admin of a session is one of its members.\<close>

definition adminPresent :: "session \<Rightarrow> bool" where
  "adminPresent s \<longleftrightarrow> map_has (users s) (adminId s)"

text \<open>
  The event is a \<open>leave-session\<close> or a \<open>disconnect\<close> of a connected socket that
  \<open>removeUser\<close> takes from the session under the key \<open>k\<close> and that is the admin of that
  session.
\<close>

fun adminLeavesFrom :: "event \<Rightarrow> string \<Rightarrow> server \<Rightarrow> bool" where
  "adminLeavesFrom (FromSocket sid LeaveSession) k sv \<longleftrightarrow>
     map_has (sockets sv) sid \<and>
     (case getSessionBySocketId sid (sessions sv) of
        None \<Rightarrow> False | Some (c, s) \<Rightarrow> c = k \<and> adminId s = sid)"
| "adminLeavesFrom (FromSocket sid Disconnect) k sv \<longleftrightarrow>
     map_has (sockets sv) sid \<and>
     (case getSessionBySocketId sid (sessions sv) of
        None \<Rightarrow> False | Some (c, s) \<Rightarrow> c = k \<and> adminId s = sid)"
| "adminLeavesFrom ev k sv \<longleftrightarrow> False"

text \<open>
  From one session map to another, the session under a key, if there still is one, has
  the admin it had (\<open>idKept\<close>), and has it among its members if it had before (\<open>kept\<close>).
\<close>

definition idKept :: "string \<Rightarrow> session_map \<Rightarrow> session_map \<Rightarrow> bool" where
  "idKept k ss ss' \<longleftrightarrow>
     (\<forall>s'. map_get ss' k = Some s' \<longrightarrow> (\<exists>s. map_get ss k = Some s \<and> adminId s' = adminId s))"

definition kept :: "string \<Rightarrow> session_map \<Rightarrow> session_map \<Rightarrow> bool" where
  "kept k ss ss' \<longleftrightarrow>
     (\<forall>s'. map_get ss' k = Some s' \<longrightarrow>
        (\<exists>s. map_get ss k = Some s \<and> adminId s' = adminId s
             \<and> (adminPresent s \<longrightarrow> adminPresent s')))"

text \<open>The sessions a socket is a member of.\<close>

definition memberships :: "string \<Rightarrow> session_map \<Rightarrow> (string \<times> session) list" where
  "memberships socketId ss = filter (\<lambda>(c, s). map_has (users s) socketId) ss"


text \<open>
  The admin \<open>s1\<close> of the session of \<open>s1\<close> and \<open>s2\<close> disconnects while \<open>s3\<close> has a session
  of its own; \<open>orphanSession\<close> is what remains of the session of \<open>s1\<close> and \<open>s2\<close>.
\<close>

definition adminGoneElsewhere :: "(int \<times> event) list" where
  "adminGoneElsewhere =
     twoMembers @
     [(4, Connection ''s3'' ''10.0.0.3''),
      (5, FromSocket ''s3'' (CreateSession (Some ''Carol'') oneDraws ''GreyCat3'')),
      (6, FromSocket ''s1'' Disconnect)]"

definition orphanSession :: session where
  "orphanSession =
     twoMemberSession\<lparr> users := map_delete (users twoMemberSession) ''s1'', lastActivity := 6 \<rparr>"

text \<open>The admin \<open>s1\<close> of the only session disconnects.\<close>

definition adminGone :: "(int \<times> event) list" where
  "adminGone = twoMembers @ [(4, FromSocket ''s1'' Disconnect)]"

text \<open>
  A third socket creates the session \<open>BBBBBBBB\<close>, and \<open>s2\<close>, a member of \<open>AAAAAAAA\<close>, joins it.
\<close>

definition secondJoin :: "(int \<times> event) list" where
  "secondJoin =
     twoMembers @
     [(4, Connection ''s3'' ''10.0.0.3''),
      (5, FromSocket ''s3'' (CreateSession (Some ''Carol'') oneDraws ''GreyCat3'')),
      (6, FromSocket ''s2'' (JoinSession (Some ''BBBBBBBB'') (Some ''Bob'') ''BlueOwl2''))]"

text \<open>The sessions before the last event of \<open>secondJoin\<close>, and the session of \<open>s3\<close>.\<close>

definition carolSession :: session where
  "carolSession =
     \<lparr> code = ''BBBBBBBB'', createdAt = 5, lastActivity = 5, adminId = ''s3'',
       users = [(''s3'', \<lparr> user_id = ''s3'', nickname = ''Carol'', joinedAt = 5,
                          isAdmin = True, clientIP = None \<rparr>)],
       publicKeys = [], bannedUsers = [] \<rparr>"


text \<open>The two sessions after the events of \<open>secondJoin\<close>.\<close>

definition secondJoinRegistry :: session_map where
  "secondJoinRegistry =
     [(''AAAAAAAA'', twoMemberSession),
      (''BBBBBBBB'',
       \<lparr> code = ''BBBBBBBB'', createdAt = 5, lastActivity = 6, adminId = ''s3'',
         users = [(''s3'', \<lparr> user_id = ''s3'', nickname = ''Carol'', joinedAt = 5,
                            isAdmin = True, clientIP = None \<rparr>),
                  (''s2'', \<lparr> user_id = ''s2'', nickname = ''Bob'', joinedAt = 6,
                            isAdmin = False, clientIP = Some ''10.0.0.2'' \<rparr>)],
         publicKeys = [], bannedUsers = [] \<rparr>)]"

text \<open>
  The member \<open>s2\<close> sends 55 messages at the same instant: five pass, fifty are over the
  limit.
\<close>

definition floodMessage :: message where
  "floodMessage =
     \<lparr> msg_code = Some ''AAAAAAAA'', encryptedLength = 24, rawMediaLength = 0,
       iv = Some ''c2FsdA=='', messageId = Some ''m1'' \<rparr>"

definition floodRun :: "(int \<times> event) list" where
  "floodRun = twoMembers @ replicate 55 (10, FromSocket ''s2'' (SendMessage floodMessage))"

definition floodLimits :: limiter where
  "floodLimits =
     \<lparr> messageRateLimiter = [(''s2'', \<lparr> count = 5, windowStart = 10 \<rparr>)],
       socketRateLimiters = [(''10.0.0.2'', \<lparr> count = 5, windowStart = 10 \<rparr>)],
       blockedSockets = {''s2''},
       blockedIPs = {''10.0.0.2''},
       abuseCounter = [(''10.0.0.2:s2'', \<lparr> count = 50, windowStart = 10 \<rparr>)],
       timers = [\<lparr> due = 300010, t_socketId = ''s2'', t_ip = ''10.0.0.2'',
                   t_abuseKey = ''10.0.0.2:s2'' \<rparr>] \<rparr>"

text \<open>
  After the flood of \<open>s2\<close> at time 10 the member \<open>s1\<close> floods at time 200000: two blocks
  with two timers, due at 300010 and at 500000.
\<close>

definition twoBlocks :: "(int \<times> event) list" where
  "twoBlocks = floodRun @ replicate 55 (200000, FromSocket ''s1'' (SendMessage floodMessage))"

definition twoBlocksLimits :: limiter where
  "twoBlocksLimits =
     \<lparr> messageRateLimiter = [(''s2'', \<lparr> count = 5, windowStart = 10 \<rparr>),
                              (''s1'', \<lparr> count = 5, windowStart = 200000 \<rparr>)],
       socketRateLimiters = [(''10.0.0.2'', \<lparr> count = 5, windowStart = 10 \<rparr>),
                              (''10.0.0.1'', \<lparr> count = 5, windowStart = 200000 \<rparr>)],
       blockedSockets = {''s1'', ''s2''},
       blockedIPs = {''10.0.0.1'', ''10.0.0.2''},
       abuseCounter = [(''10.0.0.2:s2'', \<lparr> count = 50, windowStart = 10 \<rparr>),
                        (''10.0.0.1:s1'', \<lparr> count = 50, windowStart = 200000 \<rparr>)],
       timers = [\<lparr> due = 300010, t_socketId = ''s2'', t_ip = ''10.0.0.2'',
                   t_abuseKey = ''10.0.0.2:s2'' \<rparr>,
                 \<lparr> due = 500000, t_socketId = ''s1'', t_ip = ''10.0.0.1'',
                   t_abuseKey = ''10.0.0.1:s1'' \<rparr>] \<rparr>"

text \<open>What is left of them when the timers that are due at 300010 have run.\<close>

definition oneBlockLimits :: limiter where
  "oneBlockLimits =
     \<lparr> messageRateLimiter = [(''s2'', \<lparr> count = 5, windowStart = 10 \<rparr>),
                              (''s1'', \<lparr> count = 5, windowStart = 200000 \<rparr>)],
       socketRateLimiters = [(''10.0.0.2'', \<lparr> count = 5, windowStart = 10 \<rparr>),
                              (''10.0.0.1'', \<lparr> count = 5, windowStart = 200000 \<rparr>)],
       blockedSockets = {''s1''},
       blockedIPs = {''10.0.0.1''},
       abuseCounter = [(''10.0.0.1:s1'', \<lparr> count = 50, windowStart = 200000 \<rparr>)],
       timers = [\<lparr> due = 500000, t_socketId = ''s1'', t_ip = ''10.0.0.1'',
                   t_abuseKey = ''10.0.0.1:s1'' \<rparr>] \<rparr>"

text \<open>
  The handlers of \<open>create-session\<close>, \<open>join-session\<close> and \<open>send-message\<close> begin with
  \<open>isBlocked\<close>; the handlers of the other requests do not call it.
\<close>

fun gated :: "request \<Rightarrow> bool" where
  "gated (CreateSession nick rnd gen) = True"
| "gated (JoinSession c nick gen) = True"
| "gated (SendMessage m) = True"
| "gated req = False"

text \<open>The server with other blocked sets.\<close>

definition withBlocks :: "string set \<Rightarrow> string set \<Rightarrow> server \<Rightarrow> server" where
  "withBlocks B B' sv = sv\<lparr> limits := (limits sv)\<lparr> blockedSockets := B, blockedIPs := B' \<rparr> \<rparr>"

text \<open>
  The blocked socket ids and addresses are those of the pending timers, and no two
  pending timers have the same socket id or the same address.
\<close>

definition blockTimers :: "limiter \<Rightarrow> bool" where
  "blockTimers l \<longleftrightarrow>
     distinct (map t_socketId (timers l)) \<and> distinct (map t_ip (timers l))
     \<and> blockedSockets l = t_socketId ` set (timers l)
     \<and> blockedIPs l = t_ip ` set (timers l)"

text \<open>One violation short of the threshold.\<close>

definition almostBlocked :: limiter where
  "almostBlocked =
     emptyLimiter\<lparr> abuseCounter := [(''10.0.0.2:s2'', \<lparr> count = 49, windowStart = 10 \<rparr>)] \<rparr>"

text \<open>
  The member \<open>s2\<close> sends six messages at the same instant, one more than the limit, and
  disconnects; later every periodic task runs.
\<close>

definition oneViolation :: "(int \<times> event) list" where
  "oneViolation =
     twoMembers @ replicate 6 (10, FromSocket ''s2'' (SendMessage floodMessage))
     @ [(11, FromSocket ''s2'' Disconnect),
        (1000000, RateSweep), (1000000, SessionSweep), (1000000, TimersDue)]"

section \<open>Association lists and upper case\<close>

lemma upperChar_idem: "upperChar (upperChar c) = upperChar c"
proof (cases "97 \<le> (of_char c :: nat) \<and> (of_char c :: nat) \<le> 122")
  case True
  then have "(of_char c - 32 :: nat) mod 256 = of_char c - 32"
    by (intro mod_less) linarith
  with True show ?thesis by (auto simp add: upperChar_def Let_def)
next
  case False
  then have "upperChar c = c" by (auto simp add: upperChar_def Let_def)
  then show ?thesis by simp
qed

lemma toUpperCase_idem: "toUpperCase (toUpperCase s) = toUpperCase s"
  by (simp add: toUpperCase_def upperChar_idem)

lemma toUpperCase_append: "toUpperCase (a @ b) = toUpperCase a @ toUpperCase b"
  by (simp add: toUpperCase_def)

lemma alphabet_upper: "c \<in> set alphabet \<Longrightarrow> upperChar c = c"
  by (auto simp add: alphabet_def upperChar_def)

lemma charAt_upper: "toUpperCase (charAt alphabet i) = charAt alphabet i"
  by (simp add: charAt_def toUpperCase_def alphabet_upper)

lemma codeLoop_upper:
  "toUpperCase acc = acc \<Longrightarrow> toUpperCase (codeLoop rnd i k acc) = codeLoop rnd i k acc"
  by (induction k arbitrary: i acc) (simp_all add: toUpperCase_append charAt_upper)

lemma generateSessionCode_upper: "toUpperCase (generateSessionCode rnd) = generateSessionCode rnd"
  unfolding generateSessionCode_def by (rule codeLoop_upper) (simp add: toUpperCase_def)

lemma set_update_cases:
  "x \<in> set (AList.update k v al) \<Longrightarrow> x = (k, v) \<or> x \<in> set al"
  by (induction al) (auto split: if_splits)

lemma set_delete_subset: "x \<in> set (AList.delete k al) \<Longrightarrow> x \<in> set al"
  by (simp add: AList.delete_eq)

lemma length_update_le: "length (AList.update k v al) \<le> Suc (length al)"
  by (induction al) auto

lemma getSessionBySocketId_Some:
  "getSessionBySocketId sid ss = Some (c, s) \<Longrightarrow> (c, s) \<in> set ss \<and> map_has (users s) sid"
  by (induction ss) (auto split: if_splits)

lemma removeUser_found:
  assumes "getSessionBySocketId sid ss = Some (c, s)"
  shows "removeUser now sid ss =
     (if map_delete (users s) sid = []
      then (Some \<lparr> rem_code = c, rem_user = map_get (users s) sid, sessionDestroyed = True,
                   remainingUsers = None \<rparr>,
            map_delete ss c)
      else (Some \<lparr> rem_code = c, rem_user = map_get (users s) sid, sessionDestroyed = False,
                   remainingUsers = Some (map_size (map_delete (users s) sid)) \<rparr>,
            map_set ss c (s\<lparr> users := map_delete (users s) sid,
                             publicKeys := map_delete (publicKeys s) sid,
                             lastActivity := now \<rparr>)))"
  using assms by (simp add: removeUser_def Let_def)

lemma getSessionBySocketId_memberships:
  "getSessionBySocketId sid ss = None \<Longrightarrow> memberships sid ss = []"
  by (induction ss) (auto simp add: memberships_def split: if_splits)

lemma filter_delete_key:
  "filter P (AList.delete k al) = filter (\<lambda>p. fst p \<noteq> k) (filter P al)"
  by (induction al) auto

lemma filter_absent_key:
  "k \<notin> fst ` set al \<Longrightarrow> filter (\<lambda>p. fst p \<noteq> k) (filter P al) = filter P al"
  by (induction al) auto

lemma filter_update_key:
  "\<not> P (k, v) \<Longrightarrow> distinct (map fst al) \<Longrightarrow> k \<in> fst ` set al \<Longrightarrow>
     filter P (AList.update k v al) = filter (\<lambda>p. fst p \<noteq> k) (filter P al)"
proof (induction al)
  case Nil
  then show ?case by simp
next
  case (Cons p ps)
  show ?case
  proof (cases "fst p = k")
    case True
    with Cons.prems have "k \<notin> fst ` set ps" by auto
    from filter_absent_key [OF this, of P] True Cons.prems(1) show ?thesis by simp
  next
    case False
    with Cons show ?thesis by auto
  qed
qed

lemma getSessionBySocketId_first:
  "getSessionBySocketId sid ss = (case memberships sid ss of [] \<Rightarrow> None | p # ps \<Rightarrow> Some p)"
  by (induction ss) (auto simp add: memberships_def)

lemma memberships_member:
  "(c, s) \<in> set ss \<Longrightarrow> map_has (users s) sid \<Longrightarrow> memberships sid ss \<noteq> []"
  by (auto simp add: memberships_def filter_empty_conv)

lemma memberships_after_removeUser:
  assumes dist: "distinct (map fst ss)" and first: "memberships sid ss = (c, s) # rest"
  shows "memberships sid (snd (removeUser now sid ss)) = rest"
proof -
  let ?P = "\<lambda>(c, s). map_has (users s) sid"
  let ?s' = "s\<lparr> users := map_delete (users s) sid, publicKeys := map_delete (publicKeys s) sid,
               lastActivity := now \<rparr>"
  from first have f: "getSessionBySocketId sid ss = Some (c, s)"
    by (simp add: getSessionBySocketId_first)
  from first have fil: "filter ?P ss = (c, s) # rest" by (simp add: memberships_def)
  from dist have "distinct (map fst (filter ?P ss))" by (rule distinct_map_filter)
  with fil have "c \<notin> fst ` set rest" by simp
  then have keep: "filter (\<lambda>p. fst p \<noteq> c) rest = rest" by (induction rest) auto
  have del: "filter ?P (map_delete ss c) = rest"
    by (simp only: filter_delete_key fil keep filter.simps fst_conv simp_thms if_False)
  have n: "\<not> ?P (c, ?s')" by (simp add: AList.delete_conv')
  from f have k: "c \<in> fst ` set ss" by (force dest: getSessionBySocketId_Some)
  have "filter ?P (map_set ss c ?s') = filter (\<lambda>p. fst p \<noteq> c) (filter ?P ss)"
    by (rule filter_update_key [where P = ?P and k = c and v = ?s' and al = ss, OF n dist k])
  then have upd: "filter ?P (map_set ss c ?s') = rest"
    by (simp only: fil keep filter.simps fst_conv simp_thms if_False)
  from del upd show ?thesis by (simp add: removeUser_found [OF f] memberships_def)
qed

section \<open>Well-formed session maps\<close>

lemma wf_empty: "wellFormed []"
  by (simp add: wellFormed_def)

lemma wf_update:
  assumes "wellFormed ss" "toUpperCase k = k" "distinct (map fst (users s))"
    "map_size (users s) \<le> MAX_USERS"
  shows "wellFormed (AList.update k s ss)"
  using assms unfolding wellFormed_def
  by (auto simp add: AList.distinct_update dest!: set_update_cases)

lemma wf_delete: "wellFormed ss \<Longrightarrow> wellFormed (AList.delete k ss)"
  unfolding wellFormed_def by (auto simp add: AList.distinct_delete dest!: set_delete_subset)

lemma wf_filter: "wellFormed ss \<Longrightarrow> wellFormed (filter p ss)"
  unfolding wellFormed_def by (auto simp add: distinct_map_filter)

lemma wf_member:
  "wellFormed ss \<Longrightarrow> (k, s) \<in> set ss \<Longrightarrow>
     toUpperCase k = k \<and> distinct (map fst (users s)) \<and> map_size (users s) \<le> MAX_USERS"
  unfolding wellFormed_def by auto

lemma wf_lookup:
  "wellFormed ss \<Longrightarrow> map_of ss k = Some s \<Longrightarrow>
     toUpperCase k = k \<and> distinct (map fst (users s)) \<and> map_size (users s) \<le> MAX_USERS"
  by (auto dest: map_of_SomeD wf_member)

lemma wf_createSession: "wellFormed ss \<Longrightarrow> wellFormed (snd (createSession rnd gen now sid nick ss))"
  by (simp add: createSession_def Let_def wf_update generateSessionCode_upper MAX_USERS_def)

lemma wf_joinSession:
  assumes "wellFormed ss"
  shows "wellFormed (snd (joinSession gen now c sid nick ip ss))"
proof (cases "map_of ss (toUpperCase c)")
  case None
  with assms show ?thesis by (simp add: joinSession_def)
next
  case (Some s)
  from wf_lookup [OF assms Some] have d: "distinct (map fst (users s))" by simp
  have "length (AList.update sid u (users s)) \<le> MAX_USERS" if "\<not> MAX_USERS \<le> length (users s)" for u
    using that length_update_le [of sid u "users s"] by simp
  with assms Some d show ?thesis
    by (auto simp add: joinSession_def Let_def toUpperCase_idem AList.distinct_update intro!: wf_update)
qed

lemma wf_banUser: "wellFormed ss \<Longrightarrow> wellFormed (snd (banUser now c ip nick ss))"
  by (auto simp add: banUser_def toUpperCase_idem split: option.splits dest: wf_lookup intro!: wf_update)

lemma wf_unbanUser: "wellFormed ss \<Longrightarrow> wellFormed (snd (unbanUser c ip ss))"
  by (auto simp add: unbanUser_def toUpperCase_idem split: option.splits dest: wf_lookup intro!: wf_update)

lemma wf_storePublicKey: "wellFormed ss \<Longrightarrow> wellFormed (snd (storePublicKey c sid k ss))"
  by (auto simp add: storePublicKey_def toUpperCase_idem split: option.splits dest: wf_lookup intro!: wf_update)

lemma wf_updateActivity: "wellFormed ss \<Longrightarrow> wellFormed (updateActivity now c ss)"
  by (auto simp add: updateActivity_def toUpperCase_idem split: option.splits dest: wf_lookup intro!: wf_update)

lemma wf_cleanup: "wellFormed ss \<Longrightarrow> wellFormed (cleanupExpiredSessions now ss)"
  by (simp add: cleanupExpiredSessions_def wf_filter)

lemma wf_removeUser:
  assumes "wellFormed ss"
  shows "wellFormed (snd (removeUser now sid ss))"
proof (cases "getSessionBySocketId sid ss")
  case None
  with assms show ?thesis by (simp add: removeUser_def)
next
  case (Some p)
  obtain c s where p: "p = (c, s)" by (cases p)
  from Some p have "(c, s) \<in> set ss" by (simp add: getSessionBySocketId_Some)
  from wf_member [OF assms this]
  have k: "toUpperCase c = c" and d: "distinct (map fst (users s))"
    and b: "map_size (users s) \<le> MAX_USERS" by simp_all
  from b have "length (AList.delete sid (users s)) \<le> MAX_USERS"
    using AList.length_delete_le [of sid "users s"] by simp
  with assms Some p k d show ?thesis
    by (auto simp add: removeUser_def Let_def AList.distinct_delete intro!: wf_update wf_delete)
qed

lemma wf_onCreateSession:
  "wellFormed (sessions sv) \<Longrightarrow> wellFormed (sessions (snd (onCreateSession sec rnd gen now sid nick sv)))"
  using wf_createSession [of "sessions sv" rnd gen now sid "requestNickname sec nick"]
  by (auto simp add: onCreateSession_def split: prod.splits)

lemma wf_onJoinSession:
  "wellFormed (sessions sv) \<Longrightarrow> wellFormed (sessions (snd (onJoinSession sec gen now sid c nick sv)))"
  using wf_joinSession [of "sessions sv" gen now "toUpperCase (sanitizeInput sec (the c) 10)" sid
      "requestNickname sec nick" "Some (socketIP sid sv)"]
  by (auto simp add: onJoinSession_def Let_def split: prod.splits bool.splits option.splits)

lemma wf_onSendMessage:
  "wellFormed (sessions sv) \<Longrightarrow> wellFormed (sessions (snd (onSendMessage sec cfg now sid m sv)))"
  by (auto simp add: onSendMessage_def Let_def wf_updateActivity split: prod.splits option.splits)

lemma wf_onTyping:
  "wellFormed (sessions sv) \<Longrightarrow> wellFormed (sessions (snd (onTyping sid c sv)))"
  by (simp add: onTyping_def split: prod.splits option.splits)

lemma wf_onSharePublicKey:
  "wellFormed (sessions sv) \<Longrightarrow> wellFormed (sessions (snd (onSharePublicKey sid c k sv)))"
  by (simp add: onSharePublicKey_def wf_storePublicKey)

lemma wf_usersDelete:
  assumes "wellFormed ss"
  shows "wellFormed (usersDelete c t ss)"
proof (cases "map_of ss (toUpperCase c)")
  case None
  with assms show ?thesis by (simp add: usersDelete_def)
next
  case (Some s1)
  from wf_lookup [OF assms Some]
  have "distinct (map fst (users s1))" "map_size (users s1) \<le> MAX_USERS"
    by simp_all
  moreover have "length (AList.delete t (users s1)) \<le> length (users s1)"
    by (rule AList.length_delete_le)
  ultimately show ?thesis using assms Some
    by (auto simp add: usersDelete_def toUpperCase_idem AList.distinct_delete intro!: wf_update)
qed

lemma wf_onKickUser:
  "wellFormed (sessions sv) \<Longrightarrow> wellFormed (sessions (snd (onKickUser now sid c t sv)))"
  by (simp add: onKickUser_def Let_def wf_usersDelete wf_banUser split: option.splits)

lemma wf_onUnbanUser:
  "wellFormed (sessions sv) \<Longrightarrow> wellFormed (sessions (snd (onUnbanUser sid c ip sv)))"
  using wf_unbanUser [of "sessions sv" "the c" "the ip"]
  by (auto simp add: onUnbanUser_def Let_def split: option.splits prod.splits)

lemma wf_onDisconnect:
  "wellFormed (sessions sv) \<Longrightarrow> wellFormed (sessions (snd (onDisconnect now sid sv)))"
  using wf_removeUser [of "sessions sv" now sid]
  by (auto simp add: onDisconnect_def split: prod.splits)

lemma wf_onLeaveSession:
  "wellFormed (sessions sv) \<Longrightarrow> wellFormed (sessions (snd (onLeaveSession now sid sv)))"
  using wf_removeUser [of "sessions sv" now sid]
  by (auto simp add: onLeaveSession_def split: prod.splits)

lemma wf_handle:
  "wellFormed (sessions sv) \<Longrightarrow> wellFormed (sessions (snd (handle sec cfg now sid req sv)))"
  by (cases req)
    (simp_all add: wf_onCreateSession wf_onJoinSession wf_onSendMessage wf_onTyping
      wf_onSharePublicKey wf_onKickUser wf_onUnbanUser wf_onDisconnect wf_onLeaveSession)

lemma wf_step:
  "wellFormed (sessions sv) \<Longrightarrow> wellFormed (sessions (snd (step sec cfg e sv)))"
proof (cases e)
  case (Pair now ev)
  assume "wellFormed (sessions sv)"
  then show ?thesis unfolding Pair
    by (cases ev) (simp_all add: wf_handle wf_cleanup onConnection_def)
qed

lemma wf_foldl:
  "wellFormed (sessions sv) \<Longrightarrow>
     wellFormed (sessions (foldl (\<lambda>sv e. snd (step sec cfg e sv)) sv evs))"
  by (induction evs arbitrary: sv) (simp_all add: wf_step)

lemma wf_run: "wellFormed (sessions (run sec cfg evs))"
  unfolding run_def by (rule wf_foldl) (simp add: initialServer_def wf_empty)

section \<open>The example runs\<close>

lemma defaultSecurity_simps:
  "sanitizeInput defaultSecurity s n = s" "isValidSessionCode defaultSecurity c"
  by (simp_all add: defaultSecurity_def)

lemma upper_AAAAAAAA: "toUpperCase ''AAAAAAAA'' = ''AAAAAAAA''"
  by code_simp

lemma length_crowd: "map_size crowd = 64"
  by (simp add: crowd_def)

lemma oneMember_sessions:
  "sessions (run defaultSecurity defaultConfig oneMember) = [(''AAAAAAAA'', oneMemberSession)]"
  by code_simp

lemma twoMembers_sessions:
  "sessions (run defaultSecurity defaultConfig twoMembers) =
     [(''AAAAAAAA'', twoMemberSession)]"
  by code_simp

lemma twoMembers_state:
  "run defaultSecurity defaultConfig twoMembers =
     \<lparr> sessions = [(''AAAAAAAA'', twoMemberSession)], limits = emptyLimiter,
       sockets = [(''s1'', ''10.0.0.1''), (''s2'', ''10.0.0.2'')] \<rparr>"
  by code_simp

lemma secondJoin_sessions:
  "sessions (run defaultSecurity defaultConfig secondJoin) = secondJoinRegistry"
  by code_simp

lemma adminGoneElsewhere_state:
  "run defaultSecurity defaultConfig adminGoneElsewhere =
     \<lparr> sessions = [(''AAAAAAAA'', orphanSession), (''BBBBBBBB'', carolSession)],
       limits = emptyLimiter,
       sockets = [(''s2'', ''10.0.0.2''), (''s3'', ''10.0.0.3'')] \<rparr>"
  by code_simp

lemma kickedRun_state:
  "run defaultSecurity defaultConfig kickedRun =
     \<lparr> sessions = [(''AAAAAAAA'', kickedSession)], limits = emptyLimiter,
       sockets = [(''s1'', ''10.0.0.1''), (''s2'', ''10.0.0.2''), (''s3'', ''10.0.0.9''),
                  (''s4'', ''10.0.0.9'')] \<rparr>"
  by code_simp

lemma floodRun_state:
  "run defaultSecurity defaultConfig floodRun =
     \<lparr> sessions = [(''AAAAAAAA'', twoMemberSession\<lparr> lastActivity := 10 \<rparr>)],
       limits = floodLimits,
       sockets = [(''s1'', ''10.0.0.1''), (''s2'', ''10.0.0.2'')] \<rparr>"
  by code_simp

lemma twoBlocks_state:
  "run defaultSecurity defaultConfig twoBlocks =
     \<lparr> sessions = [(''AAAAAAAA'', twoMemberSession\<lparr> lastActivity := 200000 \<rparr>)],
       limits = twoBlocksLimits,
       sockets = [(''s1'', ''10.0.0.1''), (''s2'', ''10.0.0.2'')] \<rparr>"
  by code_simp

lemma fullRun_sessions: "sessions (run defaultSecurity defaultConfig fullRun) = fullRegistry"
  by code_simp

section \<open>Removing a member\<close>

text \<open>
  C7. In every reachable state, for a connection that is a member of some session,
  \<open>removeUser\<close> deletes the member from its session, the first in the map that has it:
  the sessions the connection is a member of afterwards are the others it was in. When
  no member is left in that session, the session is deleted at once, the result says
  \<open>sessionDestroyed = true\<close> and \<open>getSession\<close> on the code finds nothing; otherwise the
  session stays with \<open>lastActivity\<close> set to the current time and the result carries the
  number of members that remain.
\<close>

theorem removeUser_removes_member:
  assumes reach: "ss = sessions (run sec cfg evs)"
    and member: "(c0, s0) \<in> set ss" "map_has (users s0) sid"
    and result: "removeUser now sid ss = (res, ss')"
  shows "\<exists>c s rest.
     memberships sid ss = (c, s) # rest \<and> memberships sid ss' = rest \<and>
     (if map_delete (users s) sid = []
      then res = Some \<lparr> rem_code = c, rem_user = map_get (users s) sid,
                        sessionDestroyed = True, remainingUsers = None \<rparr>
           \<and> getSession c ss' = None
      else res = Some \<lparr> rem_code = c, rem_user = map_get (users s) sid,
                        sessionDestroyed = False,
                        remainingUsers = Some (map_size (map_delete (users s) sid)) \<rparr>
           \<and> getSession c ss' =
               Some (s\<lparr> users := map_delete (users s) sid,
                        publicKeys := map_delete (publicKeys s) sid,
                        lastActivity := now \<rparr>))"
proof -
  have wf: "wellFormed ss" unfolding reach by (rule wf_run)
  then have dist: "distinct (map fst ss)" by (simp add: wellFormed_def)
  from memberships_member [OF member] obtain c s rest
    where first: "memberships sid ss = (c, s) # rest"
    by (cases "memberships sid ss") auto
  then have found: "getSessionBySocketId sid ss = Some (c, s)"
    by (simp add: getSessionBySocketId_first)
  then have "(c, s) \<in> set ss" by (simp add: getSessionBySocketId_Some)
  with wf have up: "toUpperCase c = c" by (auto dest: wf_member)
  from memberships_after_removeUser [OF dist first, of now] result
  have after: "memberships sid ss' = rest" by simp
  have "if map_delete (users s) sid = []
      then res = Some \<lparr> rem_code = c, rem_user = map_get (users s) sid,
                        sessionDestroyed = True, remainingUsers = None \<rparr>
           \<and> getSession c ss' = None
      else res = Some \<lparr> rem_code = c, rem_user = map_get (users s) sid,
                        sessionDestroyed = False,
                        remainingUsers = Some (map_size (map_delete (users s) sid)) \<rparr>
           \<and> getSession c ss' =
               Some (s\<lparr> users := map_delete (users s) sid,
                        publicKeys := map_delete (publicKeys s) sid,
                        lastActivity := now \<rparr>)"
  proof (cases "map_delete (users s) sid = []")
    case True
    with result removeUser_found [OF found, of now]
    have "res = Some \<lparr> rem_code = c, rem_user = map_get (users s) sid,
                       sessionDestroyed = True, remainingUsers = None \<rparr>"
      and "ss' = map_delete ss c" by simp_all
    with True up show ?thesis by (simp add: getSession_def AList.delete_conv')
  next
    case False
    with result removeUser_found [OF found, of now]
    have "res = Some \<lparr> rem_code = c, rem_user = map_get (users s) sid,
                       sessionDestroyed = False,
                       remainingUsers = Some (map_size (map_delete (users s) sid)) \<rparr>"
      and "ss' = map_set ss c (s\<lparr> users := map_delete (users s) sid,
                                   publicKeys := map_delete (publicKeys s) sid,
                                   lastActivity := now \<rparr>)" by simp_all
    with False up show ?thesis by (simp add: getSession_def AList.update_conv')
  qed
  with first after show ?thesis by blast
qed

theorem removeUser_removes_member_witness:
  "(''AAAAAAAA'', twoMemberSession) \<in> set (sessions (run defaultSecurity defaultConfig twoMembers))
   \<and> map_get (users twoMemberSession) ''s2'' \<noteq> None
   \<and> fst (removeUser 9 ''s2'' (sessions (run defaultSecurity defaultConfig twoMembers))) =
       Some \<lparr> rem_code = ''AAAAAAAA'', rem_user = map_get (users twoMemberSession) ''s2'',
              sessionDestroyed = False, remainingUsers = Some 1 \<rparr>
   \<and> map_option lastActivity (getSession ''AAAAAAAA''
        (snd (removeUser 9 ''s2'' (sessions (run defaultSecurity defaultConfig twoMembers))))) =
       Some 9
   \<and> (''AAAAAAAA'', oneMemberSession) \<in> set (sessions (run defaultSecurity defaultConfig oneMember))
   \<and> fst (removeUser 9 ''s1'' (sessions (run defaultSecurity defaultConfig oneMember))) =
       Some \<lparr> rem_code = ''AAAAAAAA'', rem_user = map_get (users oneMemberSession) ''s1'',
              sessionDestroyed = True, remainingUsers = None \<rparr>
   \<and> getSession ''AAAAAAAA''
        (snd (removeUser 9 ''s1'' (sessions (run defaultSecurity defaultConfig oneMember)))) = None
   \<and> map fst (memberships ''s2'' (sessions (run defaultSecurity defaultConfig secondJoin))) =
       [''AAAAAAAA'', ''BBBBBBBB'']
   \<and> map fst (memberships ''s2''
        (snd (removeUser 9 ''s2'' (sessions (run defaultSecurity defaultConfig secondJoin))))) =
       [''BBBBBBBB'']"
proof -
  let ?two = "sessions (run defaultSecurity defaultConfig twoMembers)"
  let ?one = "sessions (run defaultSecurity defaultConfig oneMember)"
  let ?both = "sessions (run defaultSecurity defaultConfig secondJoin)"
  have m2: "(''AAAAAAAA'', twoMemberSession) \<in> set ?two" "map_has (users twoMemberSession) ''s2''"
    by (simp_all add: twoMembers_sessions twoMemberSession_def)
  have f2: "memberships ''s2'' ?two = [(''AAAAAAAA'', twoMemberSession)]"
    by (simp add: twoMembers_sessions memberships_def twoMemberSession_def)
  have d2: "map_delete (users twoMemberSession) ''s2'' \<noteq> []"
    "map_size (map_delete (users twoMemberSession) ''s2'') = 1"
    by (simp_all add: twoMemberSession_def)
  have m1: "(''AAAAAAAA'', oneMemberSession) \<in> set ?one" "map_has (users oneMemberSession) ''s1''"
    by (simp_all add: oneMember_sessions oneMemberSession_def)
  have f1: "memberships ''s1'' ?one = [(''AAAAAAAA'', oneMemberSession)]"
    by (simp add: oneMember_sessions memberships_def oneMemberSession_def)
  have d1: "map_delete (users oneMemberSession) ''s1'' = []"
    by (simp add: oneMemberSession_def)
  have m3: "(''AAAAAAAA'', twoMemberSession) \<in> set ?both"
    by (simp add: secondJoin_sessions secondJoinRegistry_def)
  have f3: "map fst (memberships ''s2'' ?both) = [''AAAAAAAA'', ''BBBBBBBB'']"
    by (simp add: secondJoin_sessions secondJoinRegistry_def memberships_def twoMemberSession_def)
  from removeUser_removes_member [OF refl m2 surjective_pairing, of 9] f2 d2
  have a: "fst (removeUser 9 ''s2'' ?two) =
       Some \<lparr> rem_code = ''AAAAAAAA'', rem_user = map_get (users twoMemberSession) ''s2'',
              sessionDestroyed = False, remainingUsers = Some 1 \<rparr>"
    "map_option lastActivity (getSession ''AAAAAAAA'' (snd (removeUser 9 ''s2'' ?two))) = Some 9"
    by auto
  from removeUser_removes_member [OF refl m1 surjective_pairing, of 9] f1 d1
  have b: "fst (removeUser 9 ''s1'' ?one) =
       Some \<lparr> rem_code = ''AAAAAAAA'', rem_user = map_get (users oneMemberSession) ''s1'',
              sessionDestroyed = True, remainingUsers = None \<rparr>"
    "getSession ''AAAAAAAA'' (snd (removeUser 9 ''s1'' ?one)) = None"
    by auto
  from removeUser_removes_member [OF refl m3 m2(2) surjective_pairing, of 9]
  obtain k s rest where "memberships ''s2'' ?both = (k, s) # rest"
    and "memberships ''s2'' (snd (removeUser 9 ''s2'' ?both)) = rest" by blast
  with f3 have c: "map fst (memberships ''s2'' (snd (removeUser 9 ''s2'' ?both))) = [''BBBBBBBB'']"
    by simp
  from a b c m1(1) m2 f3 show ?thesis by simp
qed

section \<open>The bound on members\<close>

text \<open>
  C9. In every reachable state every session has between 0 and 64 members (its member
  map has distinct keys and at most 64 of them), and \<open>joinSession\<close> on a session with 64
  or more members fails with the error for a full session and changes nothing.
\<close>

theorem members_bounded:
  "(\<forall>(k, s) \<in> set (sessions (run sec cfg evs)).
      distinct (map fst (users s)) \<and> 0 \<le> map_size (users s) \<and> map_size (users s) \<le> 64)
   \<and> (\<forall>s. map_get ss (toUpperCase c) = Some s \<and> map_size (users s) \<ge> 64 \<longrightarrow>
          joinSession gen now c sid nick ip ss =
            (joinFailure ''Session is full (max 64 users)'', ss))"
proof
  have "wellFormed (sessions (run sec cfg evs))" by (rule wf_run)
  then show "\<forall>(k, s) \<in> set (sessions (run sec cfg evs)).
      distinct (map fst (users s)) \<and> 0 \<le> map_size (users s) \<and> map_size (users s) \<le> 64"
    by (auto simp add: wellFormed_def MAX_USERS_def)
next
  show "\<forall>s. map_get ss (toUpperCase c) = Some s \<and> map_size (users s) \<ge> 64 \<longrightarrow>
          joinSession gen now c sid nick ip ss =
            (joinFailure ''Session is full (max 64 users)'', ss)"
    by (simp add: joinSession_def MAX_USERS_def)
qed

theorem members_bounded_witness:
  "(''AAAAAAAA'', fullSession) \<in> set (sessions (run defaultSecurity defaultConfig fullRun))
   \<and> map_size (users fullSession) = 64
   \<and> map_get fullRegistry (toUpperCase ''aaaaaaaa'') = Some fullSession
   \<and> joinSession ''GreyCat3'' 7 ''aaaaaaaa'' ''s9'' None (Some ''10.0.0.8'') fullRegistry =
       (joinFailure ''Session is full (max 64 users)'', fullRegistry)"
proof -
  have m: "(''AAAAAAAA'', fullSession) \<in> set (sessions (run defaultSecurity defaultConfig fullRun))"
    by (simp add: fullRun_sessions fullRegistry_def)
  have u: "toUpperCase ''aaaaaaaa'' = ''AAAAAAAA''" by code_simp
  have g: "map_get fullRegistry (toUpperCase ''aaaaaaaa'') = Some fullSession"
    by (simp add: u fullRegistry_def)
  have l: "map_size (users fullSession) = 64" by (simp add: fullSession_def length_crowd)
  from members_bounded [of defaultSecurity defaultConfig fullRun fullRegistry "''aaaaaaaa''"
      "''GreyCat3''" 7 "''s9''" None "Some ''10.0.0.8''"] m g l
  show ?thesis by auto
qed

section \<open>The rate limiter\<close>

lemma checkRateLimit_first:
  assumes "map_get (messageRateLimiter l) sid = None" "map_get (socketRateLimiters l) ip = None"
  shows "fst (checkRateLimit cfg t0 sid ip l) = True
         \<and> counted sid ip 1 t0 (snd (checkRateLimit cfg t0 sid ip l))"
  using assms
  by (simp add: checkRateLimit_def checkIPLimit_def counted_def Let_def AList.update_conv')

lemma checkRateLimit_next:
  assumes "counted sid ip k t0 l" "t - t0 \<le> RATE_LIMIT_WINDOW cfg" "1 \<le> k"
    "k < RATE_LIMIT_MAX cfg"
  shows "fst (checkRateLimit cfg t sid ip l) = True
         \<and> counted sid ip (k + 1) t0 (snd (checkRateLimit cfg t sid ip l))"
  using assms
  by (simp add: checkRateLimit_def checkIPLimit_def counted_def Let_def AList.update_conv')

lemma checkRateLimit_over:
  assumes "counted sid ip k t0 l" "t - t0 \<le> RATE_LIMIT_WINDOW cfg" "RATE_LIMIT_MAX cfg \<le> k"
  shows "fst (checkRateLimit cfg t sid ip l) = False"
  using assms by (simp add: checkRateLimit_def counted_def)

lemma checkRateLimit_reset:
  assumes "counted sid ip k t0 l" "t - t0 > RATE_LIMIT_WINDOW cfg"
  shows "fst (checkRateLimit cfg t sid ip l) = True
         \<and> counted sid ip 1 t (snd (checkRateLimit cfg t sid ip l))"
  using assms
  by (simp add: checkRateLimit_def checkIPLimit_def counted_def Let_def AList.update_conv')

lemma checkAll_pass:
  assumes "counted sid ip k t0 l" "\<forall>t \<in> set ts. t - t0 \<le> RATE_LIMIT_WINDOW cfg" "1 \<le> k"
    "k + int (length ts) \<le> RATE_LIMIT_MAX cfg"
  shows "fst (checkAll cfg ts sid ip l) = replicate (length ts) True
         \<and> counted sid ip (k + int (length ts)) t0 (snd (checkAll cfg ts sid ip l))"
  using assms
proof (induction ts arbitrary: k l)
  case Nil
  then show ?case by simp
next
  case (Cons t ts)
  from Cons.prems have step: "fst (checkRateLimit cfg t sid ip l) = True"
    "counted sid ip (k + 1) t0 (snd (checkRateLimit cfg t sid ip l))"
    using checkRateLimit_next [of sid ip k t0 l t cfg] by simp_all
  from Cons.prems have "\<forall>t \<in> set ts. t - t0 \<le> RATE_LIMIT_WINDOW cfg" "1 \<le> k + 1"
    "k + 1 + int (length ts) \<le> RATE_LIMIT_MAX cfg" by simp_all
  from Cons.IH [OF step(2) this]
  have "fst (checkAll cfg ts sid ip (snd (checkRateLimit cfg t sid ip l))) =
          replicate (length ts) True"
    "counted sid ip (k + 1 + int (length ts)) t0
       (snd (checkAll cfg ts sid ip (snd (checkRateLimit cfg t sid ip l))))" by simp_all
  moreover have "k + 1 + int (length ts) = k + int (length (t # ts))" by simp
  ultimately show ?case using step(1)
    by (simp add: split_beta)
qed

text \<open>
  C5, as the code has it. With limit \<open>N \<ge> 1\<close> and window \<open>W\<close>, for a socket and an address
  that have no entry yet: when the first event comes at \<open>t0\<close> and the next \<open>N - 1\<close> events
  come no later than \<open>t0 + W\<close>, all \<open>N\<close> pass; an event after them that comes no later
  than \<open>t0 + W\<close> is rejected, also one that comes exactly \<open>W\<close> ms after \<open>t0\<close>; an event
  that comes more than \<open>W\<close> ms after \<open>t0\<close> passes and starts a new window.
\<close>

theorem rate_limit_window:
  assumes limit: "1 \<le> RATE_LIMIT_MAX cfg"
    and fresh: "map_get (messageRateLimiter l) sid = None"
      "map_get (socketRateLimiters l) ip = None"
    and len: "int (length ts) = RATE_LIMIT_MAX cfg - 1"
    and within: "\<forall>t \<in> set ts. t - t0 \<le> RATE_LIMIT_WINDOW cfg"
  shows "fst (checkAll cfg (t0 # ts) sid ip l) = replicate (nat (RATE_LIMIT_MAX cfg)) True
     \<and> (\<forall>t. t - t0 \<le> RATE_LIMIT_WINDOW cfg \<longrightarrow>
            fst (checkRateLimit cfg t sid ip (snd (checkAll cfg (t0 # ts) sid ip l))) = False)
     \<and> (\<forall>t. t - t0 > RATE_LIMIT_WINDOW cfg \<longrightarrow>
            fst (checkRateLimit cfg t sid ip (snd (checkAll cfg (t0 # ts) sid ip l))) = True
            \<and> counted sid ip 1 t
                (snd (checkRateLimit cfg t sid ip (snd (checkAll cfg (t0 # ts) sid ip l)))))"
proof -
  let ?l1 = "snd (checkRateLimit cfg t0 sid ip l)"
  let ?l2 = "snd (checkAll cfg ts sid ip ?l1)"
  from checkRateLimit_first [OF fresh]
  have first: "fst (checkRateLimit cfg t0 sid ip l) = True" "counted sid ip 1 t0 ?l1"
    by simp_all
  from len have "1 + int (length ts) \<le> RATE_LIMIT_MAX cfg" by simp
  from checkAll_pass [OF first(2) within _ this]
  have rest: "fst (checkAll cfg ts sid ip ?l1) = replicate (length ts) True"
    "counted sid ip (1 + int (length ts)) t0 ?l2" by simp_all
  from len have n: "nat (RATE_LIMIT_MAX cfg) = Suc (length ts)" by simp
  from len rest(2) have full: "counted sid ip (RATE_LIMIT_MAX cfg) t0 ?l2" by simp
  have fin: "snd (checkAll cfg (t0 # ts) sid ip l) = ?l2" by (simp add: split_beta)
  have "fst (checkAll cfg (t0 # ts) sid ip l) = replicate (nat (RATE_LIMIT_MAX cfg)) True"
    using first(1) rest(1) n by (simp add: split_beta)
  moreover have "fst (checkRateLimit cfg t sid ip ?l2) = False"
    if "t - t0 \<le> RATE_LIMIT_WINDOW cfg" for t
    using checkRateLimit_over [OF full that] by simp
  moreover have "fst (checkRateLimit cfg t sid ip ?l2) = True
      \<and> counted sid ip 1 t (snd (checkRateLimit cfg t sid ip ?l2))"
    if "t - t0 > RATE_LIMIT_WINDOW cfg" for t
    using checkRateLimit_reset [OF full that] .
  ultimately show ?thesis unfolding fin by blast
qed

theorem rate_limit_window_witness:
  "1 \<le> RATE_LIMIT_MAX defaultConfig
   \<and> int (length [100, 400, 700, 1000 :: int]) = RATE_LIMIT_MAX defaultConfig - 1
   \<and> fst (checkAll defaultConfig [0, 100, 400, 700, 1000] ''s1'' ''10.0.0.1'' emptyLimiter) =
       [True, True, True, True, True]
   \<and> fst (checkRateLimit defaultConfig 1000 ''s1'' ''10.0.0.1''
         (snd (checkAll defaultConfig [0, 100, 400, 700, 1000] ''s1'' ''10.0.0.1'' emptyLimiter))) = False
   \<and> fst (checkRateLimit defaultConfig 1001 ''s1'' ''10.0.0.1''
         (snd (checkAll defaultConfig [0, 100, 400, 700, 1000] ''s1'' ''10.0.0.1'' emptyLimiter))) = True"
proof -
  have a: "1 \<le> RATE_LIMIT_MAX defaultConfig"
    "int (length [100, 400, 700, 1000 :: int]) = RATE_LIMIT_MAX defaultConfig - 1"
    "\<forall>t \<in> set [100, 400, 700, 1000 :: int]. t - 0 \<le> RATE_LIMIT_WINDOW defaultConfig"
    "map_get (messageRateLimiter emptyLimiter) ''s1'' = None"
    "map_get (socketRateLimiters emptyLimiter) ''10.0.0.1'' = None"
    by (simp_all add: defaultConfig_def emptyLimiter_def)
  have r: "replicate (nat (RATE_LIMIT_MAX defaultConfig)) True = [True, True, True, True, True]"
    by (simp add: defaultConfig_def eval_nat_numeral)
  have w: "(1000::int) - 0 \<le> RATE_LIMIT_WINDOW defaultConfig"
    "(1001::int) - 0 > RATE_LIMIT_WINDOW defaultConfig"
    by (simp_all add: defaultConfig_def)
  from rate_limit_window [OF a(1) a(4) a(5) a(2) a(3)] r w a(1) a(2)
  show ?thesis by simp
qed

text \<open>
  The specification lets the counter reset once \<open>W\<close> ms have passed since the window's start.
  With the defaults (5 events in 1000 ms), five events at time 0 pass and the window
  starts at 0; an event at time 1000, when 1000 ms have passed, is rejected.
\<close>

theorem rate_limit_boundary_counterexample:
  "fst (checkAll defaultConfig [0, 0, 0, 0, 0] ''s1'' ''10.0.0.1'' emptyLimiter) =
     [True, True, True, True, True]
   \<and> RATE_LIMIT_WINDOW defaultConfig = 1000
   \<and> fst (checkRateLimit defaultConfig 1000 ''s1'' ''10.0.0.1''
         (snd (checkAll defaultConfig [0, 0, 0, 0, 0] ''s1'' ''10.0.0.1'' emptyLimiter))) = False"
  by code_simp

section \<open>The reply to a banned address\<close>

lemma socketIP_nonempty: "socketIP sid sv \<noteq> []"
  by (simp add: socketIP_def resolveIP_def split: option.splits)

lemma joinSession_banned:
  assumes "map_get ss (toUpperCase c) = Some s" "map_size (users s) < 64" "ip \<noteq> []"
    "map_get (bannedUsers s) ip = Some b"
  shows "joinSession gen now c sid nick (Some ip) ss = (bannedResult (banNickname b), ss)"
  using assms by (simp add: joinSession_def MAX_USERS_def bannedResult_def)

lemma joinSession_full:
  assumes "map_get ss (toUpperCase c) = Some s" "map_size (users s) \<ge> 64"
  shows "joinSession gen now c sid nick ip ss = (joinFailure ''Session is full (max 64 users)'', ss)"
  using assms by (simp add: joinSession_def MAX_USERS_def)

text \<open>
  C8, as the code has it. When \<open>join-session\<close> is rejected because the socket's address is
  in the session's ban list, the acknowledgement is the result of \<open>joinSession\<close> as it
  is: the error text, \<open>banned: true\<close>, and in \<open>bannedNickname\<close> the nickname recorded when
  the address was banned.
\<close>

theorem banned_reply_has_nickname:
  assumes "\<not> isBlocked sid (socketIP sid sv) (limits sv)"
    and "truthy rawCode"
    and "isValidSessionCode sec (toUpperCase (sanitizeInput sec (the rawCode) 10))"
    and "map_get (sessions sv) (toUpperCase (sanitizeInput sec (the rawCode) 10)) = Some s"
    and "map_size (users s) < 64"
    and "map_get (bannedUsers s) (socketIP sid sv) = Some b"
  shows "onJoinSession sec gen now sid rawCode rawNick sv =
           ([Callback (Rejected (bannedResult (banNickname b)))], sv)"
proof -
  let ?c = "toUpperCase (sanitizeInput sec (the rawCode) 10)"
  from assms(4) have "map_get (sessions sv) (toUpperCase ?c) = Some s"
    by (simp add: toUpperCase_idem)
  from joinSession_banned [OF this assms(5) socketIP_nonempty assms(6)]
  have "joinSession gen now ?c sid (requestNickname sec rawNick) (Some (socketIP sid sv))
          (sessions sv) = (bannedResult (banNickname b), sessions sv)" .
  with assms(1-3) show ?thesis
    by (simp add: onJoinSession_def Let_def bannedResult_def)
qed

theorem banned_reply_has_nickname_witness:
  "\<not> isBlocked ''s4'' (socketIP ''s4'' (run defaultSecurity defaultConfig kickedRun))
        (limits (run defaultSecurity defaultConfig kickedRun))
   \<and> map_get (sessions (run defaultSecurity defaultConfig kickedRun)) ''AAAAAAAA'' = Some kickedSession
   \<and> map_size (users kickedSession) < 64
   \<and> map_get (bannedUsers kickedSession) ''10.0.0.9'' =
        Some \<lparr> banNickname = ''Mallory'', bannedAt = 6, reason = ''Kicked by admin'' \<rparr>
   \<and> onJoinSession defaultSecurity ''TealEel4'' 8 ''s4'' (Some ''AAAAAAAA'') (Some ''Eve'')
        (run defaultSecurity defaultConfig kickedRun) =
       ([Callback (Rejected (bannedResult ''Mallory''))], run defaultSecurity defaultConfig kickedRun)"
proof -
  let ?sv = "run defaultSecurity defaultConfig kickedRun"
  have ip: "socketIP ''s4'' ?sv = ''10.0.0.9''"
    by (simp add: kickedRun_state socketIP_def resolveIP_def)
  have up: "toUpperCase ''AAAAAAAA'' = ''AAAAAAAA''" by code_simp
  have a: "\<not> isBlocked ''s4'' (socketIP ''s4'' ?sv) (limits ?sv)"
    by (simp add: kickedRun_state isBlocked_def emptyLimiter_def)
  have b: "truthy (Some ''AAAAAAAA'')" by simp
  have c: "isValidSessionCode defaultSecurity
             (toUpperCase (sanitizeInput defaultSecurity (the (Some ''AAAAAAAA'')) 10))"
    by (simp add: defaultSecurity_simps)
  have d: "map_get (sessions ?sv)
             (toUpperCase (sanitizeInput defaultSecurity (the (Some ''AAAAAAAA'')) 10)) =
           Some kickedSession"
    by (simp add: kickedRun_state defaultSecurity_simps up)
  have e: "map_size (users kickedSession) < 64"
    by (simp add: kickedSession_def twoMemberSession_def)
  have f: "map_get (bannedUsers kickedSession) (socketIP ''s4'' ?sv) =
        Some \<lparr> banNickname = ''Mallory'', bannedAt = 6, reason = ''Kicked by admin'' \<rparr>"
    by (simp add: ip kickedSession_def)
  from banned_reply_has_nickname [OF a b c d e f, where gen = "''TealEel4''" and now = 8
      and rawNick = "Some ''Eve''"]
    a d e f
  show ?thesis by (simp add: ip defaultSecurity_simps up)
qed

text \<open>
  The specification has the reply to a banned address leave the banned nickname out. After
  Mallory was kicked, a join from Mallory's address under another nickname is answered
  with Mallory's nickname.
\<close>

theorem banned_reply_counterexample:
  "fst (step defaultSecurity defaultConfig
          (8, FromSocket ''s4'' (JoinSession (Some ''AAAAAAAA'') (Some ''Eve'') ''TealEel4''))
          (run defaultSecurity defaultConfig kickedRun)) =
     [Callback (Rejected
        \<lparr> success = False,
          error = Some ''You have been banned from this session. Contact the admin for approval.'',
          banned = Some True, bannedNickname = Some ''Mallory'',
          res_nickname = None, res_session = None \<rparr>)]"
  by code_simp

section \<open>Session codes\<close>

text \<open>
  C1. \<open>createSession\<close> takes the code that \<open>generateSessionCode\<close> draws and stores the new
  session under it, whatever the map holds. Here the session \<open>AAAAAAAA\<close> of \<open>s1\<close> and \<open>s2\<close>
  is live when \<open>s3\<close> creates a session and the draws give \<open>AAAAAAAA\<close> again: the code is
  accepted, the new session takes the place of the live one, and \<open>s1\<close> and \<open>s2\<close> are
  members of no session any more.
\<close>

theorem createSession_accepts_live_code:
  "map fst (sessions (run defaultSecurity defaultConfig twoMembers)) = [''AAAAAAAA'']
   \<and> fst (fst (createSession zeroDraws ''GreyCat3'' 5 ''s3'' None
          (sessions (run defaultSecurity defaultConfig twoMembers)))) = ''AAAAAAAA''
   \<and> snd (createSession zeroDraws ''GreyCat3'' 5 ''s3'' None
          (sessions (run defaultSecurity defaultConfig twoMembers))) =
       [(''AAAAAAAA'',
         \<lparr> code = ''AAAAAAAA'', createdAt = 5, lastActivity = 5, adminId = ''s3'',
           users = [(''s3'', \<lparr> user_id = ''s3'', nickname = ''GreyCat3'', joinedAt = 5,
                              isAdmin = True, clientIP = None \<rparr>)],
           publicKeys = [], bannedUsers = [] \<rparr>)]
   \<and> getSessionBySocketId ''s1''
         (snd (createSession zeroDraws ''GreyCat3'' 5 ''s3'' None
            (sessions (run defaultSecurity defaultConfig twoMembers)))) = None"
  by code_simp

section \<open>Bans\<close>

lemma bannedIn_update_other:
  "k' \<noteq> k \<Longrightarrow> bannedIn k ip (AList.update k' s ss) = bannedIn k ip ss"
  by (simp add: bannedIn_def AList.update_conv')

lemma bannedIn_modify:
  assumes "bannedIn k ip ss" "map_get ss k' = Some s" "bannedUsers s' = bannedUsers s"
  shows "bannedIn k ip (AList.update k' s' ss)"
proof (cases "k' = k")
  case True
  with assms show ?thesis by (simp add: bannedIn_def AList.update_conv')
next
  case False
  with assms(1) show ?thesis by (simp add: bannedIn_update_other)
qed

lemma ban_createSession:
  "bannedIn k ip ss \<Longrightarrow> generateSessionCode rnd \<noteq> k \<Longrightarrow>
     bannedIn k ip (snd (createSession rnd gen now sid nick ss))"
  by (simp add: createSession_def Let_def bannedIn_update_other)

lemma ban_joinSession:
  "bannedIn k ip ss \<Longrightarrow> bannedIn k ip (snd (joinSession gen now c sid nick a ss))"
  by (auto simp add: joinSession_def Let_def split: option.splits intro: bannedIn_modify)

lemma ban_banUser:
  assumes "bannedIn k ip ss"
  shows "bannedIn k ip (snd (banUser now c a nick ss))"
proof (cases "map_get ss (toUpperCase c)")
  case None
  with assms show ?thesis by (simp add: banUser_def)
next
  case (Some s)
  show ?thesis
  proof (cases "toUpperCase c = k")
    case True
    with assms Some show ?thesis
      by (auto simp add: banUser_def bannedIn_def AList.update_conv')
  next
    case False
    with assms Some show ?thesis by (simp add: banUser_def bannedIn_update_other)
  qed
qed

lemma ban_unbanUser:
  assumes "bannedIn k ip ss" "\<not> (toUpperCase c = k \<and> a = ip)"
  shows "bannedIn k ip (snd (unbanUser c a ss))"
proof (cases "map_get ss (toUpperCase c)")
  case None
  with assms show ?thesis by (simp add: unbanUser_def)
next
  case (Some s)
  show ?thesis
  proof (cases "toUpperCase c = k")
    case True
    with assms Some show ?thesis
      by (auto simp add: unbanUser_def bannedIn_def AList.update_conv' AList.delete_conv')
  next
    case False
    with assms Some show ?thesis by (simp add: unbanUser_def bannedIn_update_other)
  qed
qed

lemma ban_storePublicKey:
  "bannedIn k ip ss \<Longrightarrow> bannedIn k ip (snd (storePublicKey c sid pk ss))"
  by (auto simp add: storePublicKey_def split: option.splits intro: bannedIn_modify)

lemma ban_updateActivity:
  "bannedIn k ip ss \<Longrightarrow> bannedIn k ip (updateActivity now c ss)"
  by (auto simp add: updateActivity_def split: option.splits intro: bannedIn_modify)

lemma ban_usersDelete:
  "bannedIn k ip ss \<Longrightarrow> bannedIn k ip (usersDelete c t ss)"
  by (auto simp add: usersDelete_def split: option.splits intro: bannedIn_modify)

lemma map_of_filter_keep:
  "map_of ss k = Some s \<Longrightarrow> distinct (map fst ss) \<Longrightarrow> p (k, s) \<Longrightarrow> map_of (filter p ss) k = Some s"
  by (induction ss) (auto simp add: rev_image_eqI)

lemma map_of_filter_drop:
  "map_of ss k = Some s \<Longrightarrow> distinct (map fst ss) \<Longrightarrow> \<not> p (k, s) \<Longrightarrow> map_of (filter p ss) k = None"
  by (induction ss) (auto simp add: map_of_eq_None_iff image_iff)

lemma ban_cleanup:
  assumes "bannedIn k ip ss" "distinct (map fst ss)"
  shows "map_get (cleanupExpiredSessions now ss) k = None \<or> bannedIn k ip (cleanupExpiredSessions now ss)"
proof -
  from assms(1) obtain s where s: "map_of ss k = Some s" "map_has (bannedUsers s) ip"
    by (auto simp add: bannedIn_def split: option.splits)
  let ?p = "\<lambda>(c, s). \<not> (now - lastActivity s > SESSION_EXPIRY)"
  show ?thesis
  proof (cases "?p (k, s)")
    case True
    from map_of_filter_keep [OF s(1) assms(2), of ?p] True s(2)
    show ?thesis by (simp add: cleanupExpiredSessions_def bannedIn_def)
  next
    case False
    from map_of_filter_drop [OF s(1) assms(2), of ?p] False
    show ?thesis by (simp add: cleanupExpiredSessions_def)
  qed
qed

lemma ban_removeUser:
  assumes "bannedIn k ip ss" "distinct (map fst ss)"
  shows "map_get (snd (removeUser now sid ss)) k = None \<or> bannedIn k ip (snd (removeUser now sid ss))"
proof (cases "getSessionBySocketId sid ss")
  case None
  with assms show ?thesis by (simp add: removeUser_def)
next
  case (Some p)
  obtain c s where p: "p = (c, s)" by (cases p)
  from Some p have "(c, s) \<in> set ss" by (simp add: getSessionBySocketId_Some)
  with assms(2) have look: "map_get ss c = Some s" by simp
  show ?thesis
  proof (cases "map_delete (users s) sid = []")
    case True
    with Some p have eq: "snd (removeUser now sid ss) = map_delete ss c"
      by (simp add: removeUser_found)
    show ?thesis
    proof (cases "c = k")
      case True
      then show ?thesis by (simp add: eq AList.delete_conv')
    next
      case False
      with assms(1) show ?thesis by (simp add: eq bannedIn_def AList.delete_conv')
    qed
  next
    case False
    with Some p have eq: "snd (removeUser now sid ss) =
        map_set ss c (s\<lparr> users := map_delete (users s) sid,
                         publicKeys := map_delete (publicKeys s) sid,
                         lastActivity := now \<rparr>)"
      by (simp add: removeUser_found)
    from assms(1) look show ?thesis unfolding eq
      by (intro disjI2 bannedIn_modify [where s = s]) simp_all
  qed
qed

lemma ban_handle:
  assumes "bannedIn k ip (sessions sv)" "distinct (map fst (sessions sv))"
    "\<not> unbanOf (FromSocket sid req) k ip" "\<not> createsCode (FromSocket sid req) k"
  shows "map_get (sessions (snd (handle sec cfg now sid req sv))) k = None
         \<or> bannedIn k ip (sessions (snd (handle sec cfg now sid req sv)))"
proof (cases req)
  case (CreateSession nick rnd gen)
  with assms show ?thesis
    using ban_createSession [of k ip "sessions sv" rnd gen now sid "requestNickname sec nick"]
    by (auto simp add: onCreateSession_def split: prod.splits)
next
  case (JoinSession c nick gen)
  with assms show ?thesis
    using ban_joinSession [of k ip "sessions sv" gen now
        "toUpperCase (sanitizeInput sec (the c) 10)" sid "requestNickname sec nick"
        "Some (socketIP sid sv)"]
    by (auto simp add: onJoinSession_def Let_def split: prod.splits bool.splits option.splits)
next
  case (SendMessage m)
  with assms show ?thesis
    by (auto simp add: onSendMessage_def Let_def ban_updateActivity split: prod.splits option.splits)
next
  case (Typing c)
  with assms show ?thesis by (auto simp add: onTyping_def split: prod.splits option.splits)
next
  case (SharePublicKey c pk)
  with assms show ?thesis by (simp add: onSharePublicKey_def ban_storePublicKey)
next
  case (KickUser c t)
  with assms show ?thesis
    by (simp add: onKickUser_def Let_def ban_usersDelete ban_banUser split: option.splits)
next
  case (UnbanUser c a)
  with assms show ?thesis
    using ban_unbanUser [of k ip "sessions sv" "the c" "the a"]
    by (cases a) (auto simp add: onUnbanUser_def Let_def split: option.splits prod.splits)
next
  case LeaveSession
  with assms show ?thesis
    using ban_removeUser [of k ip "sessions sv" now sid]
    by (auto simp add: onLeaveSession_def split: prod.splits)
next
  case Disconnect
  with assms show ?thesis
    using ban_removeUser [of k ip "sessions sv" now sid]
    by (auto simp add: onDisconnect_def split: prod.splits)
qed

lemma ban_step:
  assumes "bannedIn k ip (sessions sv)" "distinct (map fst (sessions sv))"
    "\<not> unbanOf ev k ip" "\<not> createsCode ev k"
  shows "map_get (sessions (snd (step sec cfg (now, ev) sv))) k = None
         \<or> bannedIn k ip (sessions (snd (step sec cfg (now, ev) sv)))"
proof (cases ev)
  case (Connection sid addr)
  with assms(1) show ?thesis by (simp add: onConnection_def)
next
  case (FromSocket sid req)
  with assms ban_handle [of k ip sv sid req sec cfg now] show ?thesis by auto
next
  case SessionSweep
  with assms ban_cleanup [of k ip "sessions sv" now] show ?thesis by simp
next
  case RateSweep
  with assms(1) show ?thesis by simp
next
  case TimersDue
  with assms(1) show ?thesis by simp
qed

lemma unbanUser_present:
  assumes "map_get ss (toUpperCase c) = Some s"
  shows "unbanUser c ip ss =
           (map_has (bannedUsers s) ip,
            map_set ss (toUpperCase c) (s\<lparr> bannedUsers := map_delete (bannedUsers s) ip \<rparr>))"
  using assms by (simp add: unbanUser_def)

lemma joinSession_after_unban:
  assumes "map_get ss (toUpperCase c) = Some s"
  shows "success (fst (joinSession gen now c sid nick (Some ip) (snd (unbanUser c ip ss)))) =
           (map_size (users s) < 64)
         \<and> banned (fst (joinSession gen now c sid nick (Some ip) (snd (unbanUser c ip ss)))) = None"
  using assms
  by (simp add: unbanUser_present joinSession_def AList.update_conv' AList.delete_conv'
      MAX_USERS_def joinFailure_def Let_def)

text \<open>
  C4, as the code has it. In a reachable state let a non-empty address be banned in the
  session \<open>S\<close>. A join to \<open>S\<close> from that address, with any nickname and from any socket,
  is rejected and changes nothing: with the ban reply when \<open>S\<close> has fewer than 64
  members, with the reply for a full session when it has 64. After any event that is
  neither an \<open>unban-user\<close> for \<open>S\<close> and that address nor a \<open>create-session\<close> that draws the
  code of \<open>S\<close>, the session is gone or the address is still banned in it. \<open>unbanUser\<close> for
  \<open>S\<close> and the address reports success and removes the ban, and a join from the address
  then succeeds unless the session is full.
\<close>

theorem ban_until_unban:
  assumes reach: "sv = run sec cfg evs"
    and sess: "map_get (sessions sv) (toUpperCase c) = Some s"
    and ban: "map_get (bannedUsers s) ip = Some b"
    and addr: "ip \<noteq> []"
  shows "joinSession gen now c sid nick (Some ip) (sessions sv) =
           (if map_size (users s) < 64 then bannedResult (banNickname b)
            else joinFailure ''Session is full (max 64 users)'', sessions sv)
     \<and> (\<forall>t ev. \<not> unbanOf ev (toUpperCase c) ip \<and> \<not> createsCode ev (toUpperCase c) \<longrightarrow>
            map_get (sessions (snd (step sec cfg (t, ev) sv))) (toUpperCase c) = None
            \<or> bannedIn (toUpperCase c) ip (sessions (snd (step sec cfg (t, ev) sv))))
     \<and> fst (unbanUser c ip (sessions sv)) = True
     \<and> \<not> bannedIn (toUpperCase c) ip (snd (unbanUser c ip (sessions sv)))
     \<and> success (fst (joinSession gen now c sid nick (Some ip) (snd (unbanUser c ip (sessions sv))))) =
         (map_size (users s) < 64)
     \<and> banned (fst (joinSession gen now c sid nick (Some ip) (snd (unbanUser c ip (sessions sv))))) =
         None"
proof -
  have wf: "wellFormed (sessions sv)" unfolding reach by (rule wf_run)
  then have dist: "distinct (map fst (sessions sv))" by (simp add: wellFormed_def)
  from sess ban have bi: "bannedIn (toUpperCase c) ip (sessions sv)"
    by (simp add: bannedIn_def)
  have join: "joinSession gen now c sid nick (Some ip) (sessions sv) =
           (if map_size (users s) < 64 then bannedResult (banNickname b)
            else joinFailure ''Session is full (max 64 users)'', sessions sv)"
  proof (cases "map_size (users s) < 64")
    case True
    from joinSession_banned [OF sess True addr ban] True show ?thesis by simp
  next
    case False
    then have "map_size (users s) \<ge> 64" by simp
    from joinSession_full [OF sess this] False show ?thesis by simp
  qed
  have keep: "map_get (sessions (snd (step sec cfg (t, ev) sv))) (toUpperCase c) = None
            \<or> bannedIn (toUpperCase c) ip (sessions (snd (step sec cfg (t, ev) sv)))"
    if "\<not> unbanOf ev (toUpperCase c) ip" "\<not> createsCode ev (toUpperCase c)" for t ev
    using ban_step [OF bi dist that] .
  have un: "fst (unbanUser c ip (sessions sv)) = True"
    "\<not> bannedIn (toUpperCase c) ip (snd (unbanUser c ip (sessions sv)))"
    using sess ban
    by (simp_all add: unbanUser_present bannedIn_def AList.update_conv' AList.delete_conv')
  from join keep un joinSession_after_unban [OF sess] show ?thesis by blast
qed

theorem ban_until_unban_witness:
  "map_get (sessions (run defaultSecurity defaultConfig kickedRun)) (toUpperCase ''aaaaaaaa'') =
     Some kickedSession
   \<and> map_get (bannedUsers kickedSession) ''10.0.0.9'' =
       Some \<lparr> banNickname = ''Mallory'', bannedAt = 6, reason = ''Kicked by admin'' \<rparr>
   \<and> joinSession ''TealEel4'' 8 ''aaaaaaaa'' ''s4'' (Some ''Eve'') (Some ''10.0.0.9'')
       (sessions (run defaultSecurity defaultConfig kickedRun)) =
       (bannedResult ''Mallory'', sessions (run defaultSecurity defaultConfig kickedRun))
   \<and> success (fst (joinSession ''TealEel4'' 8 ''aaaaaaaa'' ''s4'' (Some ''Eve'') (Some ''10.0.0.9'')
        (snd (unbanUser ''aaaaaaaa'' ''10.0.0.9''
           (sessions (run defaultSecurity defaultConfig kickedRun))))))"
proof -
  let ?sv = "run defaultSecurity defaultConfig kickedRun"
  have up: "toUpperCase ''aaaaaaaa'' = ''AAAAAAAA''" by code_simp
  have s: "map_get (sessions ?sv) (toUpperCase ''aaaaaaaa'') = Some kickedSession"
    by (simp add: up kickedRun_state)
  have b: "map_get (bannedUsers kickedSession) ''10.0.0.9'' =
       Some \<lparr> banNickname = ''Mallory'', bannedAt = 6, reason = ''Kicked by admin'' \<rparr>"
    by (simp add: kickedSession_def)
  have a: "''10.0.0.9'' \<noteq> []" by simp
  have n: "map_size (users kickedSession) < 64"
    by (simp add: kickedSession_def twoMemberSession_def)
  from ban_until_unban [OF refl s b a, where gen = "''TealEel4''" and now = 8 and sid = "''s4''"
      and nick = "Some ''Eve''"] s b n
  show ?thesis by simp
qed

text \<open>
  The specification has every join from a banned address rejected with Banned. In a session
  with 64 members the check for a full session comes first, and the reply to the banned
  address is the one for a full session, without the ban mark.
\<close>

theorem ban_full_session_counterexample:
  "sessions (run defaultSecurity defaultConfig fullRun) = fullRegistry
   \<and> map_size (users fullSession) = 64
   \<and> bannedIn ''AAAAAAAA'' ''10.0.0.9'' fullRegistry
   \<and> joinSession ''TealEel4'' 8 ''AAAAAAAA'' ''s4'' (Some ''Eve'') (Some ''10.0.0.9'') fullRegistry =
       (\<lparr> success = False, error = Some ''Session is full (max 64 users)'', banned = None,
          bannedNickname = None, res_nickname = None, res_session = None \<rparr>, fullRegistry)"
proof -
  have "bannedIn ''AAAAAAAA'' ''10.0.0.9'' fullRegistry"
    by (simp add: bannedIn_def fullRegistry_def fullSession_def)
  moreover have "joinSession ''TealEel4'' 8 ''AAAAAAAA'' ''s4'' (Some ''Eve'') (Some ''10.0.0.9'')
      fullRegistry = (joinFailure ''Session is full (max 64 users)'', fullRegistry)"
    by (rule joinSession_full [where s = fullSession])
      (simp_all add: upper_AAAAAAAA fullRegistry_def fullSession_def length_crowd)
  ultimately show ?thesis
    by (simp add: joinFailure_def fullRun_sessions fullSession_def length_crowd)
qed

section \<open>The admin of a session\<close>

lemma kept_idKept: "kept k ss ss' \<Longrightarrow> idKept k ss ss'"
  unfolding kept_def idKept_def by blast

lemma kept_refl: "kept k ss ss"
  unfolding kept_def by simp

lemma kept_trans: "kept k a b \<Longrightarrow> kept k b c \<Longrightarrow> kept k a c"
  unfolding kept_def by (metis option.inject)

lemma kept_modify:
  assumes "map_get ss K = Some s" "adminId s' = adminId s" "adminPresent s \<longrightarrow> adminPresent s'"
  shows "kept k ss (map_set ss K s')"
  using assms unfolding kept_def by (auto simp add: AList.update_conv')

lemma idKept_modify:
  assumes "map_get ss K = Some s" "adminId s' = adminId s"
  shows "idKept k ss (map_set ss K s')"
  using assms unfolding idKept_def by (auto simp add: AList.update_conv')

lemma kept_delete: "kept k ss (map_delete ss K)"
  unfolding kept_def by (auto simp add: AList.delete_conv' split: if_splits)

lemma map_of_filter_Some:
  "distinct (map fst ss) \<Longrightarrow> map_of (filter p ss) k = Some v \<Longrightarrow> map_of ss k = Some v"
  by (auto dest!: map_of_SomeD)

lemma kept_filter: "distinct (map fst ss) \<Longrightarrow> kept k ss (filter p ss)"
  unfolding kept_def using map_of_filter_Some [of ss p k] by blast

lemma kept_joinSession: "kept k ss (snd (joinSession gen now c sid nick ip ss))"
  by (auto simp add: joinSession_def Let_def kept_refl adminPresent_def AList.update_conv'
      split: option.splits intro!: kept_modify)

lemma kept_banUser: "kept k ss (snd (banUser now c ip nick ss))"
  by (auto simp add: banUser_def kept_refl adminPresent_def split: option.splits
      intro!: kept_modify)

lemma kept_unbanUser: "kept k ss (snd (unbanUser c ip ss))"
  by (auto simp add: unbanUser_def kept_refl adminPresent_def split: option.splits
      intro!: kept_modify)

lemma kept_storePublicKey: "kept k ss (snd (storePublicKey c sid pk ss))"
  by (auto simp add: storePublicKey_def kept_refl adminPresent_def split: option.splits
      intro!: kept_modify)

lemma kept_updateActivity: "kept k ss (updateActivity now c ss)"
  by (auto simp add: updateActivity_def kept_refl adminPresent_def split: option.splits
      intro!: kept_modify)

lemma kept_cleanup: "distinct (map fst ss) \<Longrightarrow> kept k ss (cleanupExpiredSessions now ss)"
  by (simp add: cleanupExpiredSessions_def kept_filter)

lemma kept_usersDelete:
  assumes "\<And>s. map_get ss (toUpperCase c) = Some s \<Longrightarrow> adminId s \<noteq> t"
  shows "kept k ss (usersDelete c t ss)"
proof (cases "map_get ss (toUpperCase c)")
  case None
  then show ?thesis by (simp add: usersDelete_def kept_refl)
next
  case (Some s)
  from assms [OF Some] have "adminPresent s \<longrightarrow> adminPresent (s\<lparr> users := map_delete (users s) t \<rparr>)"
    by (simp add: adminPresent_def AList.delete_conv')
  with Some show ?thesis by (simp add: usersDelete_def kept_modify)
qed

lemma banUser_adminId:
  "map_get (snd (banUser now c ip nick ss)) k = Some s1 \<Longrightarrow>
     \<exists>s0. map_get ss k = Some s0 \<and> adminId s1 = adminId s0"
  by (auto simp add: banUser_def AList.update_conv' split: option.splits if_splits)

lemma kept_createSession_other:
  "generateSessionCode rnd \<noteq> k \<Longrightarrow> kept k ss (snd (createSession rnd gen now sid nick ss))"
  by (simp add: createSession_def Let_def kept_def AList.update_conv')

lemma created_admin:
  assumes "map_get (snd (createSession rnd gen now sid nick ss)) k = Some s'"
  shows "map_get ss k = Some s' \<or> adminPresent s'"
  using assms
  by (auto simp add: createSession_def Let_def AList.update_conv' adminPresent_def
      split: if_splits)

lemma removeUser_at:
  assumes dist: "distinct (map fst ss)" and found: "getSessionBySocketId sid ss = Some (c, s)"
  shows "map_get ss c = Some s"
  using assms by (simp add: getSessionBySocketId_Some)

lemma idKept_removeUser:
  assumes "distinct (map fst ss)"
  shows "idKept k ss (snd (removeUser now sid ss))"
proof (cases "getSessionBySocketId sid ss")
  case None
  then show ?thesis by (simp add: removeUser_def kept_refl kept_idKept)
next
  case (Some p)
  obtain c s where p: "p = (c, s)" by (cases p)
  from Some p have f: "getSessionBySocketId sid ss = Some (c, s)" by simp
  from removeUser_at [OF assms f] show ?thesis
    by (auto simp add: removeUser_found [OF f] kept_delete kept_idKept intro!: idKept_modify)
qed

lemma kept_removeUser:
  assumes "distinct (map fst ss)"
    "\<And>s. getSessionBySocketId sid ss = Some (k, s) \<Longrightarrow> adminId s \<noteq> sid"
  shows "kept k ss (snd (removeUser now sid ss))"
proof (cases "getSessionBySocketId sid ss")
  case None
  then show ?thesis by (simp add: removeUser_def kept_refl)
next
  case (Some p)
  obtain c s where p: "p = (c, s)" by (cases p)
  from Some p have f: "getSessionBySocketId sid ss = Some (c, s)" by simp
  note look = removeUser_at [OF assms(1) f]
  let ?s' = "s\<lparr> users := map_delete (users s) sid, publicKeys := map_delete (publicKeys s) sid,
               lastActivity := now \<rparr>"
  show ?thesis
  proof (cases "c = k")
    case True
    with assms(2) f have "adminId s \<noteq> sid" by simp
    then have "adminPresent s \<longrightarrow> adminPresent ?s'"
      by (simp add: adminPresent_def AList.delete_conv')
    with look show ?thesis
      by (auto simp add: removeUser_found [OF f] kept_delete intro!: kept_modify)
  next
    case False
    then have "map_get (map_set ss c ?s') k = map_get ss k"
      "map_get (map_delete ss c) k = map_get ss k"
      by (simp_all add: AList.update_conv' AList.delete_conv')
    then show ?thesis by (simp add: removeUser_found [OF f] kept_def)
  qed
qed

lemma kept_onKickUser: "kept k (sessions sv) (sessions (snd (onKickUser now sid c t sv)))"
proof -
  have del: "kept k (sessions sv) (usersDelete (the c) (the t) ss1)"
    if a: "kept k (sessions sv) ss1"
      and b: "\<And>K s1. map_get ss1 K = Some s1 \<Longrightarrow>
                \<exists>s0. map_get (sessions sv) K = Some s0 \<and> adminId s1 = adminId s0"
      and g: "getSession (the c) (sessions sv) = Some s" and ad: "adminId s = sid"
      and ne: "the t \<noteq> sid"
    for ss1 s
  proof (rule kept_trans [OF a], rule kept_usersDelete)
    fix s1 assume "map_get ss1 (toUpperCase (the c)) = Some s1"
    from b [OF this] g ad ne show "adminId s1 \<noteq> the t" by (auto simp add: getSession_def)
  qed
  show ?thesis
    by (auto simp add: onKickUser_def Let_def kept_refl split: option.splits
        intro!: del kept_banUser dest: banUser_adminId)
qed

lemma kept_handle:
  assumes "distinct (map fst (sessions sv))" "\<not> createsCode (FromSocket sid req) k"
    "\<not> adminLeavesFrom (FromSocket sid req) k sv" "map_has (sockets sv) sid"
  shows "kept k (sessions sv) (sessions (snd (handle sec cfg now sid req sv)))"
proof (cases req)
  case (CreateSession nick rnd gen)
  with assms(2) show ?thesis
    using kept_createSession_other [of rnd k "sessions sv" gen now sid "requestNickname sec nick"]
    by (auto simp add: onCreateSession_def kept_refl split: prod.splits)
next
  case (JoinSession c nick gen)
  then show ?thesis
    using kept_joinSession [of k "sessions sv" gen now
        "toUpperCase (sanitizeInput sec (the c) 10)" sid "requestNickname sec nick"
        "Some (socketIP sid sv)"]
    by (auto simp add: onJoinSession_def Let_def kept_refl
        split: prod.splits bool.splits option.splits)
next
  case (SendMessage m)
  then show ?thesis
    by (auto simp add: onSendMessage_def Let_def kept_refl kept_updateActivity
        split: prod.splits option.splits)
next
  case (Typing c)
  then show ?thesis by (auto simp add: onTyping_def kept_refl split: prod.splits option.splits)
next
  case (SharePublicKey c pk)
  then show ?thesis by (simp add: onSharePublicKey_def kept_refl kept_storePublicKey)
next
  case (KickUser c t)
  then show ?thesis by (simp add: kept_onKickUser)
next
  case (UnbanUser c a)
  then show ?thesis
    using kept_unbanUser [of k "sessions sv" "the c" "the a"]
    by (auto simp add: onUnbanUser_def Let_def kept_refl split: option.splits prod.splits)
next
  case LeaveSession
  with assms have "kept k (sessions sv) (snd (removeUser now sid (sessions sv)))"
    by (intro kept_removeUser) auto
  with LeaveSession show ?thesis by (auto simp add: onLeaveSession_def split: prod.splits)
next
  case Disconnect
  with assms have "kept k (sessions sv) (snd (removeUser now sid (sessions sv)))"
    by (intro kept_removeUser) auto
  with Disconnect show ?thesis by (auto simp add: onDisconnect_def split: prod.splits)
qed

lemma idKept_handle:
  assumes "distinct (map fst (sessions sv))" "\<not> createsCode (FromSocket sid req) k"
    "map_has (sockets sv) sid"
  shows "idKept k (sessions sv) (sessions (snd (handle sec cfg now sid req sv)))"
proof (cases "req = LeaveSession \<or> req = Disconnect")
  case True
  with idKept_removeUser [OF assms(1), of k now sid] show ?thesis
    by (auto simp add: onLeaveSession_def onDisconnect_def split: prod.splits)
next
  case False
  then have "\<not> adminLeavesFrom (FromSocket sid req) k sv" by (cases req) simp_all
  from kept_handle [OF assms(1,2) this assms(3)] show ?thesis by (rule kept_idKept)
qed

lemma kept_step:
  assumes "distinct (map fst (sessions sv))" "\<not> createsCode ev k" "\<not> adminLeavesFrom ev k sv"
  shows "kept k (sessions sv) (sessions (snd (step sec cfg (now, ev) sv)))"
proof (cases ev)
  case (Connection sid addr)
  then show ?thesis by (simp add: onConnection_def kept_refl)
next
  case (FromSocket sid req)
  with assms kept_handle [of sv sid req k sec cfg now] show ?thesis by (simp add: kept_refl)
next
  case SessionSweep
  with assms(1) show ?thesis by (simp add: kept_cleanup)
next
  case RateSweep
  then show ?thesis by (simp add: kept_refl)
next
  case TimersDue
  then show ?thesis by (simp add: kept_refl)
qed

lemma idKept_step:
  assumes "distinct (map fst (sessions sv))" "\<not> createsCode ev k"
  shows "idKept k (sessions sv) (sessions (snd (step sec cfg (now, ev) sv)))"
proof (cases ev)
  case (FromSocket sid req)
  with assms idKept_handle [of sv sid req k sec cfg now] show ?thesis
    by (simp add: kept_refl kept_idKept)
next
  case (Connection sid addr)
  with kept_step [OF assms, of sec cfg now] show ?thesis by (simp add: kept_idKept)
next
  case SessionSweep
  with kept_step [OF assms, of sec cfg now] show ?thesis by (simp add: kept_idKept)
next
  case RateSweep
  with kept_step [OF assms, of sec cfg now] show ?thesis by (simp add: kept_idKept)
next
  case TimersDue
  with kept_step [OF assms, of sec cfg now] show ?thesis by (simp add: kept_idKept)
qed

lemma created_step:
  assumes "createsCode ev k" "map_get (sessions (snd (step sec cfg (now, ev) sv))) k = Some s'"
  shows "map_get (sessions sv) k = Some s' \<or> adminPresent s'"
proof -
  from assms(1) obtain sid nick rnd gen where ev: "ev = FromSocket sid (CreateSession nick rnd gen)"
    by (cases ev; cases "case ev of FromSocket s r \<Rightarrow> r") auto
  from assms(2) created_admin [of rnd gen now sid "requestNickname sec nick" "sessions sv" k s']
  show ?thesis unfolding ev
    by (auto simp add: onCreateSession_def split: if_splits prod.splits)
qed

lemma admin_leaves_step:
  assumes dist: "distinct (map fst (sessions sv))" and leaves: "adminLeavesFrom ev k sv"
    and before: "map_get (sessions sv) k = Some s"
    and after: "map_get (sessions (snd (step sec cfg (now, ev) sv))) k = Some s'"
  shows "adminId s' = adminId s \<and> \<not> adminPresent s'"
proof -
  from leaves obtain sid where ev: "ev = FromSocket sid LeaveSession \<or> ev = FromSocket sid Disconnect"
    by (cases ev; cases "case ev of FromSocket s r \<Rightarrow> r") auto
  with leaves have con: "map_has (sockets sv) sid"
    and look: "case getSessionBySocketId sid (sessions sv) of
                 None \<Rightarrow> False | Some (c, s) \<Rightarrow> c = k \<and> adminId s = sid"
    by auto
  from look obtain s0 where f: "getSessionBySocketId sid (sessions sv) = Some (k, s0)"
    and ad: "adminId s0 = sid"
    by (auto split: option.splits)
  from removeUser_at [OF dist f] before have s0: "s0 = s" by simp
  from ev con after have "map_get (snd (removeUser now sid (sessions sv))) k = Some s'"
    by (auto simp add: onLeaveSession_def onDisconnect_def split: prod.splits)
  then have "s' = s\<lparr> users := map_delete (users s) sid,
                      publicKeys := map_delete (publicKeys s) sid, lastActivity := now \<rparr>"
    unfolding removeUser_found [OF f] s0
    by (auto simp add: AList.update_conv' AList.delete_conv' split: if_splits)
  with ad s0 show ?thesis by (simp add: adminPresent_def AList.delete_conv')
qed

text \<open>
  C2, as the code has it, session by session. Take a reachable state, a step from it
  and a key \<open>k\<close>. A session that the step puts under a key that had none has its admin
  among its members. A session under \<open>k\<close> whose admin is a member before the step has it
  as a member after the step if it is still there, whatever happens to the other
  sessions, unless the step is the \<open>leave-session\<close> or \<open>disconnect\<close> of a connected socket
  that is the admin of this session and is taken from it. Unless the step creates a
  session with the code \<open>k\<close>, the session under \<open>k\<close> after the step has the \<open>adminId\<close> it
  had before. In the excepted step the session, if members remain, keeps its \<open>adminId\<close>,
  which is then the id of no member.
\<close>

theorem admin_stays_member:
  "(sv = run sec cfg evs \<and> map_get (sessions sv) k = None
      \<and> map_get (sessions (snd (step sec cfg (now, ev) sv))) k = Some s' \<longrightarrow>
      adminPresent s')
   \<and> (sv = run sec cfg evs \<and> map_get (sessions sv) k = Some s \<and> adminPresent s
        \<and> \<not> adminLeavesFrom ev k sv
        \<and> map_get (sessions (snd (step sec cfg (now, ev) sv))) k = Some s' \<longrightarrow>
      adminPresent s')
   \<and> (sv = run sec cfg evs \<and> map_get (sessions sv) k = Some s \<and> \<not> createsCode ev k
        \<and> map_get (sessions (snd (step sec cfg (now, ev) sv))) k = Some s' \<longrightarrow>
      adminId s' = adminId s)
   \<and> (sv = run sec cfg evs \<and> map_get (sessions sv) k = Some s \<and> adminLeavesFrom ev k sv
        \<and> map_get (sessions (snd (step sec cfg (now, ev) sv))) k = Some s' \<longrightarrow>
      adminId s' = adminId s \<and> \<not> adminPresent s')"
proof -
  let ?ss' = "sessions (snd (step sec cfg (now, ev) sv))"
  have dist: "distinct (map fst (sessions sv))" if "sv = run sec cfg evs"
    using wf_run [of sec cfg evs] that by (simp add: wellFormed_def)
  have new: "adminPresent s'"
    if r: "sv = run sec cfg evs" and n: "map_get (sessions sv) k = None"
      and a: "map_get ?ss' k = Some s'"
  proof (cases "createsCode ev k")
    case True
    from created_step [OF True a] n show ?thesis by simp
  next
    case False
    from idKept_step [OF dist [OF r] False, of sec cfg now] a n show ?thesis
      by (auto simp add: idKept_def)
  qed
  have stay: "adminPresent s'"
    if r: "sv = run sec cfg evs" and b: "map_get (sessions sv) k = Some s" "adminPresent s"
      and l: "\<not> adminLeavesFrom ev k sv" and a: "map_get ?ss' k = Some s'"
  proof (cases "createsCode ev k")
    case True
    from created_step [OF True a] b show ?thesis by auto
  next
    case False
    from kept_step [OF dist [OF r] False l, of sec cfg now] a b show ?thesis
      by (auto simp add: kept_def)
  qed
  have same: "adminId s' = adminId s"
    if r: "sv = run sec cfg evs" and b: "map_get (sessions sv) k = Some s"
      and c: "\<not> createsCode ev k" and a: "map_get ?ss' k = Some s'"
    using idKept_step [OF dist [OF r] c, of sec cfg now] a b by (auto simp add: idKept_def)
  have gone: "adminId s' = adminId s \<and> \<not> adminPresent s'"
    if r: "sv = run sec cfg evs" and b: "map_get (sessions sv) k = Some s"
      and l: "adminLeavesFrom ev k sv" and a: "map_get ?ss' k = Some s'"
    using admin_leaves_step [OF dist [OF r] l b a] .
  from new stay same gone show ?thesis by blast
qed

theorem admin_stays_member_witness:
  "map_get (sessions (run defaultSecurity defaultConfig adminGoneElsewhere)) ''AAAAAAAA'' =
     Some orphanSession
   \<and> \<not> adminPresent orphanSession
   \<and> map_get (sessions (run defaultSecurity defaultConfig adminGoneElsewhere)) ''BBBBBBBB'' =
       Some carolSession
   \<and> adminPresent carolSession
   \<and> \<not> adminLeavesFrom (FromSocket ''s2'' (JoinSession (Some ''BBBBBBBB'') (Some ''Bob'') ''BlueOwl2''))
         ''BBBBBBBB'' (run defaultSecurity defaultConfig adminGoneElsewhere)
   \<and> \<not> createsCode (FromSocket ''s2'' (JoinSession (Some ''BBBBBBBB'') (Some ''Bob'') ''BlueOwl2''))
         ''BBBBBBBB''
   \<and> map_get (sessions (snd (step defaultSecurity defaultConfig
         (7, FromSocket ''s2'' (JoinSession (Some ''BBBBBBBB'') (Some ''Bob'') ''BlueOwl2''))
         (run defaultSecurity defaultConfig adminGoneElsewhere)))) ''BBBBBBBB'' =
       Some (carolSession\<lparr> users := map_set (users carolSession) ''s2''
                 \<lparr> user_id = ''s2'', nickname = ''Bob'', joinedAt = 7, isAdmin = False,
                   clientIP = Some ''10.0.0.2'' \<rparr>, lastActivity := 7 \<rparr>)
   \<and> adminPresent (carolSession\<lparr> users := map_set (users carolSession) ''s2''
                 \<lparr> user_id = ''s2'', nickname = ''Bob'', joinedAt = 7, isAdmin = False,
                   clientIP = Some ''10.0.0.2'' \<rparr>, lastActivity := 7 \<rparr>)
   \<and> adminId (carolSession\<lparr> users := map_set (users carolSession) ''s2''
                 \<lparr> user_id = ''s2'', nickname = ''Bob'', joinedAt = 7, isAdmin = False,
                   clientIP = Some ''10.0.0.2'' \<rparr>, lastActivity := 7 \<rparr>) = adminId carolSession
   \<and> map_get (sessions (run defaultSecurity defaultConfig twoMembers)) ''BBBBBBBB'' = None
   \<and> map_get (sessions (snd (step defaultSecurity defaultConfig
         (4, FromSocket ''s2'' (CreateSession (Some ''Bob'') oneDraws ''BlueOwl2''))
         (run defaultSecurity defaultConfig twoMembers)))) ''BBBBBBBB'' =
       Some \<lparr> code = ''BBBBBBBB'', createdAt = 4, lastActivity = 4, adminId = ''s2'',
              users = [(''s2'', \<lparr> user_id = ''s2'', nickname = ''Bob'', joinedAt = 4,
                                 isAdmin = True, clientIP = None \<rparr>)],
              publicKeys = [], bannedUsers = [] \<rparr>
   \<and> adminPresent \<lparr> code = ''BBBBBBBB'', createdAt = 4, lastActivity = 4, adminId = ''s2'',
              users = [(''s2'', \<lparr> user_id = ''s2'', nickname = ''Bob'', joinedAt = 4,
                                 isAdmin = True, clientIP = None \<rparr>)],
              publicKeys = [], bannedUsers = [] \<rparr>
   \<and> map_get (sessions (run defaultSecurity defaultConfig twoMembers)) ''AAAAAAAA'' =
       Some twoMemberSession
   \<and> adminLeavesFrom (FromSocket ''s1'' Disconnect) ''AAAAAAAA''
       (run defaultSecurity defaultConfig twoMembers)
   \<and> map_get (sessions (snd (step defaultSecurity defaultConfig (4, FromSocket ''s1'' Disconnect)
         (run defaultSecurity defaultConfig twoMembers)))) ''AAAAAAAA'' =
       Some (twoMemberSession\<lparr> users := map_delete (users twoMemberSession) ''s1'',
               lastActivity := 4 \<rparr>)
   \<and> adminId (twoMemberSession\<lparr> users := map_delete (users twoMemberSession) ''s1'',
               lastActivity := 4 \<rparr>) = adminId twoMemberSession
   \<and> \<not> adminPresent (twoMemberSession\<lparr> users := map_delete (users twoMemberSession) ''s1'',
               lastActivity := 4 \<rparr>)"
proof -
  let ?e = "run defaultSecurity defaultConfig adminGoneElsewhere"
  let ?t = "run defaultSecurity defaultConfig twoMembers"
  let ?join = "FromSocket ''s2'' (JoinSession (Some ''BBBBBBBB'') (Some ''Bob'') ''BlueOwl2'')"
  let ?create = "FromSocket ''s2'' (CreateSession (Some ''Bob'') oneDraws ''BlueOwl2'')"
  let ?joined = "carolSession\<lparr> users := map_set (users carolSession) ''s2''
                 \<lparr> user_id = ''s2'', nickname = ''Bob'', joinedAt = 7, isAdmin = False,
                   clientIP = Some ''10.0.0.2'' \<rparr>, lastActivity := 7 \<rparr>"
  let ?created = "\<lparr> code = ''BBBBBBBB'', createdAt = 4, lastActivity = 4, adminId = ''s2'',
              users = [(''s2'', \<lparr> user_id = ''s2'', nickname = ''Bob'', joinedAt = 4,
                                 isAdmin = True, clientIP = None \<rparr>)],
              publicKeys = [], bannedUsers = [] \<rparr>"
  let ?left = "twoMemberSession\<lparr> users := map_delete (users twoMemberSession) ''s1'',
               lastActivity := 4 \<rparr>"
  have a: "map_get (sessions ?e) ''AAAAAAAA'' = Some orphanSession"
    and b: "map_get (sessions ?e) ''BBBBBBBB'' = Some carolSession"
    by (simp_all add: adminGoneElsewhere_state)
  have orphan: "\<not> adminPresent orphanSession" by code_simp
  have carol: "adminPresent carolSession" by code_simp
  have stays: "\<not> adminLeavesFrom ?join ''BBBBBBBB'' ?e" by simp
  have nocreate: "\<not> createsCode ?join ''BBBBBBBB''" by simp
  have join: "map_get (sessions (snd (step defaultSecurity defaultConfig (7, ?join) ?e)))
                ''BBBBBBBB'' = Some ?joined"
    unfolding adminGoneElsewhere_state by code_simp
  have none: "map_get (sessions ?t) ''BBBBBBBB'' = None"
    and two: "map_get (sessions ?t) ''AAAAAAAA'' = Some twoMemberSession"
    by (simp_all add: twoMembers_state)
  have create: "map_get (sessions (snd (step defaultSecurity defaultConfig (4, ?create) ?t)))
                  ''BBBBBBBB'' = Some ?created"
    unfolding twoMembers_state by code_simp
  have leaves: "adminLeavesFrom (FromSocket ''s1'' Disconnect) ''AAAAAAAA'' ?t"
    unfolding twoMembers_state by code_simp
  have left: "map_get (sessions (snd (step defaultSecurity defaultConfig
                (4, FromSocket ''s1'' Disconnect) ?t))) ''AAAAAAAA'' = Some ?left"
    unfolding twoMembers_state by code_simp
  note J = admin_stays_member [where sv = ?e and sec = defaultSecurity and cfg = defaultConfig
      and evs = adminGoneElsewhere and k = "''BBBBBBBB''" and s = carolSession and s' = ?joined
      and now = 7 and ev = ?join]
  note C = admin_stays_member [where sv = ?t and sec = defaultSecurity and cfg = defaultConfig
      and evs = twoMembers and k = "''BBBBBBBB''" and s' = ?created and now = 4 and ev = ?create]
  note L = admin_stays_member [where sv = ?t and sec = defaultSecurity and cfg = defaultConfig
      and evs = twoMembers and k = "''AAAAAAAA''" and s = twoMemberSession and s' = ?left
      and now = 4 and ev = "FromSocket ''s1'' Disconnect"]
  from J [THEN conjunct2, THEN conjunct1] b carol stays join
  have j2: "adminPresent ?joined" by blast
  from J [THEN conjunct2, THEN conjunct2, THEN conjunct1] b nocreate join
  have j3: "adminId ?joined = adminId carolSession" by blast
  from C [THEN conjunct1] none create
  have c1: "adminPresent ?created" by blast
  from L [THEN conjunct2, THEN conjunct2, THEN conjunct2] two leaves left
  have l4: "adminId ?left = adminId twoMemberSession \<and> \<not> adminPresent ?left" by blast
  from a orphan b carol stays nocreate join j2 j3 none create c1 two leaves left l4
  show ?thesis by (intro conjI) (assumption | erule conjunct1 | erule conjunct2)+
qed

text \<open>
  The specification has the admin of a session among its members after every operation. When
  the admin \<open>s1\<close> disconnects while \<open>s2\<close> remains, the session keeps \<open>adminId = s1\<close> and \<open>s1\<close>
  is no member of it.
\<close>

theorem admin_gone_counterexample:
  "sessions (run defaultSecurity defaultConfig adminGone) =
     [(''AAAAAAAA'',
       \<lparr> code = ''AAAAAAAA'', createdAt = 2, lastActivity = 4, adminId = ''s1'',
         users = [(''s2'', \<lparr> user_id = ''s2'', nickname = ''Bob'', joinedAt = 3,
                            isAdmin = False, clientIP = Some ''10.0.0.2'' \<rparr>)],
         publicKeys = [], bannedUsers = [] \<rparr>)]
   \<and> \<not> adminPresent
         \<lparr> code = ''AAAAAAAA'', createdAt = 2, lastActivity = 4, adminId = ''s1'',
           users = [(''s2'', \<lparr> user_id = ''s2'', nickname = ''Bob'', joinedAt = 3,
                              isAdmin = False, clientIP = Some ''10.0.0.2'' \<rparr>)],
           publicKeys = [], bannedUsers = [] \<rparr>"
proof -
  have s: "sessions (run defaultSecurity defaultConfig adminGone) =
     [(''AAAAAAAA'',
       \<lparr> code = ''AAAAAAAA'', createdAt = 2, lastActivity = 4, adminId = ''s1'',
         users = [(''s2'', \<lparr> user_id = ''s2'', nickname = ''Bob'', joinedAt = 3,
                            isAdmin = False, clientIP = Some ''10.0.0.2'' \<rparr>)],
         publicKeys = [], bannedUsers = [] \<rparr>)]"
    by code_simp
  have p: "\<not> adminPresent
         \<lparr> code = ''AAAAAAAA'', createdAt = 2, lastActivity = 4, adminId = ''s1'',
           users = [(''s2'', \<lparr> user_id = ''s2'', nickname = ''Bob'', joinedAt = 3,
                              isAdmin = False, clientIP = Some ''10.0.0.2'' \<rparr>)],
           publicKeys = [], bannedUsers = [] \<rparr>"
    by (simp add: adminPresent_def)
  from s p show ?thesis by (rule conjI)
qed

section \<open>Memberships of a socket\<close>


























section \<open>Blocking after abuse\<close>

lemma trackAbuse_blocks:
  assumes "map_get (abuseCounter l) (abuseKeyOf ip sid) = Some a"
    "\<not> now - windowStart a > ABUSE_WINDOW" "count a + 1 \<ge> ABUSE_THRESHOLD"
  shows "sid \<in> blockedSockets (trackAbuse now sid ip l)
     \<and> ip \<in> blockedIPs (trackAbuse now sid ip l)
     \<and> \<lparr> due = now + 300000, t_socketId = sid, t_ip = ip, t_abuseKey = abuseKeyOf ip sid \<rparr>
          \<in> set (timers (trackAbuse now sid ip l))"
  using assms by (simp add: trackAbuse_def Let_def BLOCK_TTL_def)

lemma trackAbuse_grows:
  "blockedSockets l \<subseteq> blockedSockets (trackAbuse now sid ip l)
   \<and> blockedIPs l \<subseteq> blockedIPs (trackAbuse now sid ip l)"
  by (auto simp add: trackAbuse_def Let_def split: option.splits)

lemma checkIPLimit_grows:
  "blockedSockets l \<subseteq> blockedSockets (snd (checkIPLimit cfg now sid ip l))
   \<and> blockedIPs l \<subseteq> blockedIPs (snd (checkIPLimit cfg now sid ip l))"
  using trackAbuse_grows [of l now sid ip]
  by (auto simp add: checkIPLimit_def Let_def split: option.splits)

lemma checkRateLimit_grows:
  "blockedSockets l \<subseteq> blockedSockets (snd (checkRateLimit cfg now sid ip l))
   \<and> blockedIPs l \<subseteq> blockedIPs (snd (checkRateLimit cfg now sid ip l))"
proof -
  have "blockedSockets l \<subseteq> blockedSockets (snd (checkIPLimit cfg now sid ip (l\<lparr> messageRateLimiter := m \<rparr>)))
      \<and> blockedIPs l \<subseteq> blockedIPs (snd (checkIPLimit cfg now sid ip (l\<lparr> messageRateLimiter := m \<rparr>)))" for m
    using checkIPLimit_grows [of "l\<lparr> messageRateLimiter := m \<rparr>" cfg now sid ip] by simp
  with trackAbuse_grows [of l now sid ip] show ?thesis
    by (simp add: checkRateLimit_def split: option.splits)
qed

lemma blocked_handle:
  "blockedSockets (limits sv) \<subseteq> blockedSockets (limits (snd (handle sec cfg now sid req sv)))
   \<and> blockedIPs (limits sv) \<subseteq> blockedIPs (limits (snd (handle sec cfg now sid req sv)))"
proof (cases req)
  case (CreateSession nick rnd gen)
  then show ?thesis by (simp add: onCreateSession_def split: prod.splits)
next
  case (JoinSession c nick gen)
  then show ?thesis
    by (simp add: onJoinSession_def Let_def split: prod.splits bool.splits option.splits)
next
  case (SendMessage m)
  with checkRateLimit_grows [of "limits sv" cfg now sid "socketIP sid sv"] show ?thesis
    by (auto simp add: onSendMessage_def Let_def split: prod.splits option.splits)
next
  case (Typing c)
  then show ?thesis by (simp add: onTyping_def split: prod.splits option.splits)
next
  case (SharePublicKey c pk)
  then show ?thesis by (simp add: onSharePublicKey_def)
next
  case (KickUser c t)
  then show ?thesis by (simp add: onKickUser_def Let_def split: option.splits)
next
  case (UnbanUser c a)
  then show ?thesis by (simp add: onUnbanUser_def Let_def split: option.splits prod.splits)
next
  case LeaveSession
  then show ?thesis by (simp add: onLeaveSession_def split: prod.splits)
next
  case Disconnect
  then show ?thesis by (simp add: onDisconnect_def split: prod.splits)
qed

lemma blocked_step:
  assumes "ev \<noteq> TimersDue"
  shows "blockedSockets (limits sv) \<subseteq> blockedSockets (limits (snd (step sec cfg (now, ev) sv)))
     \<and> blockedIPs (limits sv) \<subseteq> blockedIPs (limits (snd (step sec cfg (now, ev) sv)))"
proof (cases ev)
  case (Connection sid addr)
  then show ?thesis by (simp add: onConnection_def)
next
  case (FromSocket sid req)
  with blocked_handle [of sv sec cfg now sid req] show ?thesis by simp
next
  case SessionSweep
  then show ?thesis by simp
next
  case RateSweep
  then show ?thesis by (simp add: cleanupRateLimiters_def)
next
  case TimersDue
  with assms show ?thesis by simp
qed

lemma unblock_fold_sockets:
  "blockedSockets (foldl (\<lambda>l' t. unblock t l') l ts) = blockedSockets l - t_socketId ` set ts"
  by (induction ts arbitrary: l) (auto simp add: unblock_def)

lemma unblock_fold_ips:
  "blockedIPs (foldl (\<lambda>l' t. unblock t l') l ts) = blockedIPs l - t_ip ` set ts"
  by (induction ts arbitrary: l) (auto simp add: unblock_def)

lemma unblock_fold_counter:
  "map_get (abuseCounter (foldl (\<lambda>l' t. unblock t l') l ts)) k =
     (if k \<in> t_abuseKey ` set ts then None else map_get (abuseCounter l) k)"
  by (induction ts arbitrary: l) (auto simp add: unblock_def AList.delete_conv')

lemma runTimers_clears:
  assumes "t \<in> set (timers l)" "due t \<le> now"
  shows "t_socketId t \<notin> blockedSockets (runTimers now l)
     \<and> t_ip t \<notin> blockedIPs (runTimers now l)
     \<and> map_get (abuseCounter (runTimers now l)) (t_abuseKey t) = None
     \<and> t \<notin> set (timers (runTimers now l))"
  using assms
  by (simp add: runTimers_def unblock_fold_sockets unblock_fold_ips unblock_fold_counter)

lemma timers_trackAbuse: "set (timers l) \<subseteq> set (timers (trackAbuse now sid ip l))"
  by (auto simp add: trackAbuse_def Let_def split: option.splits)

lemma timers_checkIPLimit:
  "set (timers l) \<subseteq> set (timers (snd (checkIPLimit cfg now sid ip l)))"
  using timers_trackAbuse [of l now sid ip]
  by (auto simp add: checkIPLimit_def Let_def split: option.splits)

lemma timers_checkRateLimit:
  "set (timers l) \<subseteq> set (timers (snd (checkRateLimit cfg now sid ip l)))"
proof -
  have "set (timers l) \<subseteq> set (timers (snd (checkIPLimit cfg now sid ip (l\<lparr> messageRateLimiter := m \<rparr>))))" for m
    using timers_checkIPLimit [of "l\<lparr> messageRateLimiter := m \<rparr>" cfg now sid ip] by simp
  with timers_trackAbuse [of l now sid ip] show ?thesis
    by (simp add: checkRateLimit_def split: option.splits)
qed

lemma blocks_handle_ungated:
  "\<not> gated req \<Longrightarrow>
     timers (limits (snd (handle sec cfg now sid req sv))) = timers (limits sv)
     \<and> blockedSockets (limits (snd (handle sec cfg now sid req sv))) = blockedSockets (limits sv)
     \<and> blockedIPs (limits (snd (handle sec cfg now sid req sv))) = blockedIPs (limits sv)"
  by (cases req)
    (auto simp add: onTyping_def onSharePublicKey_def onKickUser_def onUnbanUser_def
      onLeaveSession_def onDisconnect_def Let_def split: prod.splits option.splits)

lemma timers_handle:
  "set (timers (limits sv)) \<subseteq> set (timers (limits (snd (handle sec cfg now sid req sv))))"
proof (cases "gated req")
  case False
  then show ?thesis by (simp add: blocks_handle_ungated)
next
  case True
  then show ?thesis
  proof (cases req)
    case (CreateSession nick rnd gen)
    then show ?thesis by (simp add: onCreateSession_def split: prod.splits)
  next
    case (JoinSession c nick gen)
    then show ?thesis
      by (simp add: onJoinSession_def Let_def split: prod.splits bool.splits option.splits)
  next
    case (SendMessage m)
    with timers_checkRateLimit [of "limits sv" cfg now sid "socketIP sid sv"] show ?thesis
      by (auto simp add: onSendMessage_def Let_def split: prod.splits option.splits)
  qed simp_all
qed

lemma timers_step:
  assumes "t \<in> set (timers (limits sv))" "ev \<noteq> TimersDue \<or> now < due t"
  shows "t \<in> set (timers (limits (snd (step sec cfg (now, ev) sv))))"
proof (cases ev)
  case (Connection sid addr)
  with assms(1) show ?thesis by (simp add: onConnection_def)
next
  case (FromSocket sid req)
  with assms(1) timers_handle [of sv sec cfg now sid req] show ?thesis by auto
next
  case SessionSweep
  with assms(1) show ?thesis by simp
next
  case RateSweep
  with assms(1) show ?thesis by (simp add: cleanupRateLimiters_def)
next
  case TimersDue
  with assms show ?thesis by (simp add: runTimers_def)
qed

subsection \<open>The blocked sets are those of the pending timers\<close>

lemma bt_trackAbuse:
  assumes "blockTimers l" "\<not> isBlocked sid ip l"
  shows "blockTimers (trackAbuse now sid ip l)"
  using assms
  by (auto simp add: blockTimers_def isBlocked_def trackAbuse_def Let_def split: option.splits)

lemma bt_checkIPLimit:
  assumes "blockTimers l" "\<not> isBlocked sid ip l"
  shows "blockTimers (snd (checkIPLimit cfg now sid ip l))"
proof -
  have "blockTimers (l\<lparr> socketRateLimiters := m \<rparr>)" for m
    using assms(1) by (simp add: blockTimers_def)
  with bt_trackAbuse [OF assms, of now] show ?thesis
    by (simp add: checkIPLimit_def Let_def split: option.splits)
qed

lemma bt_checkRateLimit:
  assumes "blockTimers l" "\<not> isBlocked sid ip l"
  shows "blockTimers (snd (checkRateLimit cfg now sid ip l))"
proof -
  have "blockTimers (snd (checkIPLimit cfg now sid ip (l\<lparr> messageRateLimiter := m \<rparr>)))" for m
    using assms by (intro bt_checkIPLimit) (simp_all add: blockTimers_def isBlocked_def)
  with bt_trackAbuse [OF assms, of now] show ?thesis
    by (simp add: checkRateLimit_def split: option.splits)
qed

lemma image_filter_inj:
  assumes "distinct (map f ts)"
  shows "f ` set ts - f ` {t \<in> set ts. P t} = f ` {t \<in> set ts. \<not> P t}"
proof -
  from assms have "inj_on f (set ts)" by (simp add: distinct_map)
  then show ?thesis by (auto simp add: inj_on_def)
qed

lemma bt_runTimers:
  assumes "blockTimers l"
  shows "blockTimers (runTimers now l)"
  using assms
  by (simp add: blockTimers_def runTimers_def unblock_fold_sockets unblock_fold_ips
      image_filter_inj distinct_map_filter)

lemma bt_handle:
  assumes "blockTimers (limits sv)"
  shows "blockTimers (limits (snd (handle sec cfg now sid req sv)))"
proof (cases "gated req")
  case False
  with assms show ?thesis by (simp add: blockTimers_def blocks_handle_ungated)
next
  case True
  then show ?thesis
  proof (cases req)
    case (CreateSession nick rnd gen)
    with assms show ?thesis by (simp add: onCreateSession_def split: prod.splits)
  next
    case (JoinSession c nick gen)
    with assms show ?thesis
      by (simp add: onJoinSession_def Let_def split: prod.splits bool.splits option.splits)
  next
    case (SendMessage m)
    with assms bt_checkRateLimit [of "limits sv" sid "socketIP sid sv" cfg now] show ?thesis
      by (auto simp add: onSendMessage_def Let_def split: prod.splits option.splits)
  qed simp_all
qed

lemma bt_step:
  assumes "blockTimers (limits sv)"
  shows "blockTimers (limits (snd (step sec cfg e sv)))"
proof (cases e)
  case (Pair now ev)
  show ?thesis
  proof (cases ev)
    case (Connection sid addr)
    with assms Pair show ?thesis by (simp add: onConnection_def)
  next
    case (FromSocket sid req)
    with assms Pair bt_handle [of sv sec cfg now sid req] show ?thesis by simp
  next
    case SessionSweep
    with assms Pair show ?thesis by simp
  next
    case RateSweep
    with assms Pair show ?thesis by (simp add: cleanupRateLimiters_def blockTimers_def)
  next
    case TimersDue
    with assms Pair show ?thesis by (simp add: bt_runTimers)
  qed
qed

lemma bt_foldl:
  "blockTimers (limits sv) \<Longrightarrow>
     blockTimers (limits (foldl (\<lambda>sv e. snd (step sec cfg e sv)) sv evs))"
  by (induction evs arbitrary: sv) (simp_all add: bt_step)

lemma bt_run: "blockTimers (limits (run sec cfg evs))"
  unfolding run_def
  by (rule bt_foldl) (simp add: initialServer_def emptyLimiter_def blockTimers_def)

lemma step_ungated:
  assumes "\<not> gated req"
  shows "step sec cfg (now, FromSocket sid req) (withBlocks B B' sv) =
     (fst (step sec cfg (now, FromSocket sid req) sv),
      withBlocks B B' (snd (step sec cfg (now, FromSocket sid req) sv)))"
  using assms
  by (cases req)
    (auto simp add: withBlocks_def onTyping_def onSharePublicKey_def onKickUser_def
      onUnbanUser_def onLeaveSession_def onDisconnect_def Let_def
      split: prod.splits option.splits)

text \<open>
  C6, as the code has it. When a violation brings the abuse counter of a socket and its
  address to the threshold of 50 inside the abuse window, \<open>trackAbuse\<close> puts the socket id
  and the address into the blocked sets and sets a timer for 300 s. While the socket or
  its address is blocked, the \<open>create-session\<close>, \<open>join-session\<close> and \<open>send-message\<close> events
  of the socket are dropped whatever the rate limiter holds, and a new connection from
  it is refused. The handlers of the other requests do not look at the blocked sets:
  with any other blocked sets they send the same and leave the same state. No event but
  the timers takes anything out of the blocked sets. When the timer runs, the socket id,
  the address and the abuse counter of the pair are deleted. In a state the server can
  reach, the socket id and the address of every pending timer are blocked, and they
  stay blocked, with the timer pending, over every step that is not the run of the
  timers at or after the time this timer is due: the callback of another block does not
  end this one. Every blocked socket id and every blocked address there has a pending
  timer.
\<close>

theorem abuse_block:
  "(map_get (abuseCounter l) (abuseKeyOf ip sid) = Some a \<and> \<not> now - windowStart a > ABUSE_WINDOW
      \<and> count a + 1 \<ge> ABUSE_THRESHOLD \<longrightarrow>
        isBlocked sid ip (trackAbuse now sid ip l)
        \<and> sid \<in> blockedSockets (trackAbuse now sid ip l)
        \<and> ip \<in> blockedIPs (trackAbuse now sid ip l)
        \<and> \<lparr> due = now + 300000, t_socketId = sid, t_ip = ip, t_abuseKey = abuseKeyOf ip sid \<rparr>
             \<in> set (timers (trackAbuse now sid ip l)))
   \<and> (isBlocked sid (socketIP sid sv) (limits sv) \<longrightarrow>
        onCreateSession sec rnd gen now sid rawNick sv = ([], sv)
        \<and> onJoinSession sec gen now sid rawCode rawNick sv = ([], sv)
        \<and> onSendMessage sec cfg now sid m sv = ([], sv))
   \<and> (isBlocked sid (resolveIP addr) (limits sv) \<longrightarrow>
        onConnection sid addr sv = ([ForceDisconnect sid], sv))
   \<and> (isBlocked sid ip (limits sv) \<and> ev \<noteq> TimersDue \<longrightarrow>
        isBlocked sid ip (limits (snd (step sec cfg (now, ev) sv))))
   \<and> (t \<in> set (timers l) \<and> due t \<le> now \<longrightarrow>
        t_socketId t \<notin> blockedSockets (runTimers now l)
        \<and> t_ip t \<notin> blockedIPs (runTimers now l)
        \<and> map_get (abuseCounter (runTimers now l)) (t_abuseKey t) = None
        \<and> t \<notin> set (timers (runTimers now l)))
   \<and> (sv = run sec cfg evs \<and> t \<in> set (timers (limits sv))
        \<and> (ev \<noteq> TimersDue \<or> now < due t) \<longrightarrow>
        t_socketId t \<in> blockedSockets (limits sv)
        \<and> t_ip t \<in> blockedIPs (limits sv)
        \<and> t \<in> set (timers (limits (snd (step sec cfg (now, ev) sv))))
        \<and> t_socketId t \<in> blockedSockets (limits (snd (step sec cfg (now, ev) sv)))
        \<and> t_ip t \<in> blockedIPs (limits (snd (step sec cfg (now, ev) sv))))
   \<and> (sv = run sec cfg evs \<and> isBlocked sid ip (limits sv) \<longrightarrow>
        (\<exists>t'. t' \<in> set (timers (limits sv)) \<and> (t_socketId t' = sid \<or> t_ip t' = ip)))
   \<and> (\<not> gated req \<longrightarrow>
        step sec cfg (now, FromSocket sid req) (withBlocks B B' sv) =
          (fst (step sec cfg (now, FromSocket sid req) sv),
           withBlocks B B' (snd (step sec cfg (now, FromSocket sid req) sv))))"
proof -
  have c1: "map_get (abuseCounter l) (abuseKeyOf ip sid) = Some a
      \<and> \<not> now - windowStart a > ABUSE_WINDOW \<and> count a + 1 \<ge> ABUSE_THRESHOLD \<longrightarrow>
        isBlocked sid ip (trackAbuse now sid ip l)
        \<and> sid \<in> blockedSockets (trackAbuse now sid ip l)
        \<and> ip \<in> blockedIPs (trackAbuse now sid ip l)
        \<and> \<lparr> due = now + 300000, t_socketId = sid, t_ip = ip, t_abuseKey = abuseKeyOf ip sid \<rparr>
             \<in> set (timers (trackAbuse now sid ip l))"
    using trackAbuse_blocks [of l ip sid a now] by (simp add: isBlocked_def)
  have c2: "isBlocked sid (socketIP sid sv) (limits sv) \<longrightarrow>
        onCreateSession sec rnd gen now sid rawNick sv = ([], sv)
        \<and> onJoinSession sec gen now sid rawCode rawNick sv = ([], sv)
        \<and> onSendMessage sec cfg now sid m sv = ([], sv)"
    by (simp add: onCreateSession_def onJoinSession_def onSendMessage_def Let_def)
  have c3: "isBlocked sid (resolveIP addr) (limits sv) \<longrightarrow>
        onConnection sid addr sv = ([ForceDisconnect sid], sv)"
    by (simp add: onConnection_def)
  have c4: "isBlocked sid ip (limits sv) \<and> ev \<noteq> TimersDue \<longrightarrow>
        isBlocked sid ip (limits (snd (step sec cfg (now, ev) sv)))"
    using blocked_step [of ev sv sec cfg now] by (auto simp add: isBlocked_def)
  have c5: "t \<in> set (timers l) \<and> due t \<le> now \<longrightarrow>
        t_socketId t \<notin> blockedSockets (runTimers now l)
        \<and> t_ip t \<notin> blockedIPs (runTimers now l)
        \<and> map_get (abuseCounter (runTimers now l)) (t_abuseKey t) = None
        \<and> t \<notin> set (timers (runTimers now l))"
    using runTimers_clears [of t l now] by blast
  have c6: "t_socketId t \<in> blockedSockets (limits sv)
        \<and> t_ip t \<in> blockedIPs (limits sv)
        \<and> t \<in> set (timers (limits (snd (step sec cfg (now, ev) sv))))
        \<and> t_socketId t \<in> blockedSockets (limits (snd (step sec cfg (now, ev) sv)))
        \<and> t_ip t \<in> blockedIPs (limits (snd (step sec cfg (now, ev) sv)))"
    if r: "sv = run sec cfg evs" and t: "t \<in> set (timers (limits sv))"
      and e: "ev \<noteq> TimersDue \<or> now < due t"
  proof -
    from r bt_run [of sec cfg evs] have b: "blockTimers (limits sv)" by simp
    then have b': "blockTimers (limits (snd (step sec cfg (now, ev) sv)))" by (rule bt_step)
    from timers_step [OF t e]
    have t': "t \<in> set (timers (limits (snd (step sec cfg (now, ev) sv))))" .
    from b t b' t' show ?thesis by (simp add: blockTimers_def)
  qed
  have c7: "\<exists>t'. t' \<in> set (timers (limits sv)) \<and> (t_socketId t' = sid \<or> t_ip t' = ip)"
    if r: "sv = run sec cfg evs" and b: "isBlocked sid ip (limits sv)"
  proof -
    from r bt_run [of sec cfg evs] have "blockTimers (limits sv)" by simp
    with b show ?thesis by (auto simp add: blockTimers_def isBlocked_def)
  qed
  have c8: "\<not> gated req \<longrightarrow>
        step sec cfg (now, FromSocket sid req) (withBlocks B B' sv) =
          (fst (step sec cfg (now, FromSocket sid req) sv),
           withBlocks B B' (snd (step sec cfg (now, FromSocket sid req) sv)))"
    using step_ungated [of req sec cfg now sid B B' sv] by blast
  from c6 have c6': "sv = run sec cfg evs \<and> t \<in> set (timers (limits sv))
        \<and> (ev \<noteq> TimersDue \<or> now < due t) \<longrightarrow>
        t_socketId t \<in> blockedSockets (limits sv)
        \<and> t_ip t \<in> blockedIPs (limits sv)
        \<and> t \<in> set (timers (limits (snd (step sec cfg (now, ev) sv))))
        \<and> t_socketId t \<in> blockedSockets (limits (snd (step sec cfg (now, ev) sv)))
        \<and> t_ip t \<in> blockedIPs (limits (snd (step sec cfg (now, ev) sv)))"
    by blast
  from c7 have c7': "sv = run sec cfg evs \<and> isBlocked sid ip (limits sv) \<longrightarrow>
        (\<exists>t'. t' \<in> set (timers (limits sv)) \<and> (t_socketId t' = sid \<or> t_ip t' = ip))"
    by blast
  from c1 c2 c3 c4 c5 c6' c7' c8 show ?thesis by (intro conjI)
qed

theorem abuse_block_witness:
  "isBlocked ''s2'' (socketIP ''s2'' (run defaultSecurity defaultConfig floodRun))
      (limits (run defaultSecurity defaultConfig floodRun))
   \<and> onSendMessage defaultSecurity defaultConfig 5000 ''s2'' floodMessage
        (run defaultSecurity defaultConfig floodRun) =
       ([], run defaultSecurity defaultConfig floodRun)
   \<and> onConnection ''s5'' ''10.0.0.2'' (run defaultSecurity defaultConfig floodRun) =
       ([ForceDisconnect ''s5''], run defaultSecurity defaultConfig floodRun)
   \<and> isBlocked ''s2'' ''10.0.0.2''
        (limits (snd (step defaultSecurity defaultConfig (5000, FromSocket ''s2'' Disconnect)
           (run defaultSecurity defaultConfig floodRun))))
   \<and> map_get (abuseCounter almostBlocked) (abuseKeyOf ''10.0.0.2'' ''s2'') =
        Some \<lparr> count = 49, windowStart = 10 \<rparr>
   \<and> isBlocked ''s2'' ''10.0.0.2'' (trackAbuse 10 ''s2'' ''10.0.0.2'' almostBlocked)
   \<and> \<lparr> due = 300010, t_socketId = ''s2'', t_ip = ''10.0.0.2'', t_abuseKey = ''10.0.0.2:s2'' \<rparr>
        \<in> set (timers floodLimits)
   \<and> ''s2'' \<notin> blockedSockets (runTimers 300010 floodLimits)
   \<and> ''10.0.0.2'' \<notin> blockedIPs (runTimers 300010 floodLimits)
   \<and> map_get (abuseCounter (runTimers 300010 floodLimits)) ''10.0.0.2:s2'' = None
   \<and> limits (run defaultSecurity defaultConfig twoBlocks) = twoBlocksLimits
   \<and> \<lparr> due = 500000, t_socketId = ''s1'', t_ip = ''10.0.0.1'', t_abuseKey = ''10.0.0.1:s1'' \<rparr>
        \<in> set (timers (limits (run defaultSecurity defaultConfig twoBlocks)))
   \<and> limits (snd (step defaultSecurity defaultConfig (300010, TimersDue)
        (run defaultSecurity defaultConfig twoBlocks))) = oneBlockLimits
   \<and> ''s1'' \<in> blockedSockets (limits (snd (step defaultSecurity defaultConfig (300010, TimersDue)
        (run defaultSecurity defaultConfig twoBlocks))))
   \<and> ''10.0.0.1'' \<in> blockedIPs (limits (snd (step defaultSecurity defaultConfig
        (300010, TimersDue) (run defaultSecurity defaultConfig twoBlocks))))
   \<and> \<lparr> due = 500000, t_socketId = ''s1'', t_ip = ''10.0.0.1'', t_abuseKey = ''10.0.0.1:s1'' \<rparr>
        \<in> set (timers (limits (snd (step defaultSecurity defaultConfig (300010, TimersDue)
             (run defaultSecurity defaultConfig twoBlocks)))))
   \<and> ''s2'' \<notin> blockedSockets (limits (snd (step defaultSecurity defaultConfig
        (300010, TimersDue) (run defaultSecurity defaultConfig twoBlocks))))
   \<and> ''s1'' \<in> blockedSockets (limits (snd (step defaultSecurity defaultConfig
        (600000, FromSocket ''s1'' Disconnect) (run defaultSecurity defaultConfig twoBlocks))))
   \<and> (\<exists>t'. t' \<in> set (timers (limits (run defaultSecurity defaultConfig floodRun)))
          \<and> (t_socketId t' = ''s2'' \<or> t_ip t' = ''10.0.0.9''))
   \<and> \<not> gated (Typing (Some ''AAAAAAAA''))
   \<and> step defaultSecurity defaultConfig (11, FromSocket ''s2'' (Typing (Some ''AAAAAAAA'')))
        (withBlocks {} {} (run defaultSecurity defaultConfig floodRun)) =
       (fst (step defaultSecurity defaultConfig (11, FromSocket ''s2'' (Typing (Some ''AAAAAAAA'')))
          (run defaultSecurity defaultConfig floodRun)),
        withBlocks {} {} (snd (step defaultSecurity defaultConfig
          (11, FromSocket ''s2'' (Typing (Some ''AAAAAAAA'')))
          (run defaultSecurity defaultConfig floodRun))))"
proof -
  let ?sv = "run defaultSecurity defaultConfig floodRun"
  let ?tb = "run defaultSecurity defaultConfig twoBlocks"
  let ?t = "\<lparr> due = 300010, t_socketId = ''s2'', t_ip = ''10.0.0.2'', t_abuseKey = ''10.0.0.2:s2'' \<rparr>"
  let ?t1 = "\<lparr> due = 500000, t_socketId = ''s1'', t_ip = ''10.0.0.1'', t_abuseKey = ''10.0.0.1:s1'' \<rparr>"
  let ?typing = "Typing (Some ''AAAAAAAA'')"
  have ip: "socketIP ''s2'' ?sv = ''10.0.0.2''"
    by (simp add: floodRun_state socketIP_def resolveIP_def)
  have b: "isBlocked ''s2'' (socketIP ''s2'' ?sv) (limits ?sv)"
    by (simp add: floodRun_state isBlocked_def floodLimits_def)
  have b2: "isBlocked ''s2'' ''10.0.0.2'' (limits ?sv)"
    by (simp add: floodRun_state isBlocked_def floodLimits_def)
  have b9: "isBlocked ''s2'' ''10.0.0.9'' (limits ?sv)"
    by (simp add: floodRun_state isBlocked_def floodLimits_def)
  have b5: "isBlocked ''s5'' (resolveIP ''10.0.0.2'') (limits ?sv)"
    by (simp add: floodRun_state isBlocked_def floodLimits_def resolveIP_def)
  have t: "?t \<in> set (timers floodLimits)" "due ?t \<le> 300010"
    by (simp_all add: floodLimits_def)
  have k: "map_get (abuseCounter almostBlocked) (abuseKeyOf ''10.0.0.2'' ''s2'') =
        Some \<lparr> count = 49, windowStart = 10 \<rparr>"
    "\<not> 10 - windowStart \<lparr> count = 49, windowStart = 10 \<rparr> > ABUSE_WINDOW"
    "count \<lparr> count = 49, windowStart = 10 \<rparr> + 1 \<ge> ABUSE_THRESHOLD"
    by (simp_all add: almostBlocked_def abuseKeyOf_def emptyLimiter_def ABUSE_WINDOW_def
        ABUSE_THRESHOLD_def)
  have ne: "FromSocket ''s2'' Disconnect \<noteq> TimersDue" by simp
  have l2: "limits ?tb = twoBlocksLimits" by (simp add: twoBlocks_state)
  have t1: "?t1 \<in> set (timers (limits ?tb))" by (simp add: twoBlocks_state twoBlocksLimits_def)
  have early: "TimersDue \<noteq> TimersDue \<or> 300010 < due ?t1" by simp
  have other: "FromSocket ''s1'' Disconnect \<noteq> TimersDue \<or> 600000 < due ?t1" by simp
  have after: "limits (snd (step defaultSecurity defaultConfig (300010, TimersDue) ?tb)) =
      oneBlockLimits"
    unfolding twoBlocks_state by code_simp
  have released: "''s2'' \<notin> blockedSockets (limits (snd (step defaultSecurity defaultConfig
      (300010, TimersDue) ?tb)))"
    unfolding after by (simp add: oneBlockLimits_def)
  have ung: "\<not> gated ?typing" by simp
  note S = abuse_block [where sid = "''s2''" and sv = ?sv and sec = defaultSecurity
      and cfg = defaultConfig and now = 5000 and m = floodMessage and ip = "''10.0.0.2''"
      and ev = "FromSocket ''s2'' Disconnect"]
  from S [THEN conjunct2, THEN conjunct1] b
  have send: "onSendMessage defaultSecurity defaultConfig 5000 ''s2'' floodMessage ?sv = ([], ?sv)"
    by blast
  from S [THEN conjunct2, THEN conjunct2, THEN conjunct2, THEN conjunct1] b2 ne
  have still: "isBlocked ''s2'' ''10.0.0.2''
      (limits (snd (step defaultSecurity defaultConfig (5000, FromSocket ''s2'' Disconnect) ?sv)))"
    by blast
  from abuse_block [where sid = "''s5''" and sv = ?sv and addr = "''10.0.0.2''",
      THEN conjunct2, THEN conjunct2, THEN conjunct1] b5
  have conn: "onConnection ''s5'' ''10.0.0.2'' ?sv = ([ForceDisconnect ''s5''], ?sv)"
    by blast
  from abuse_block [where sid = "''s2''" and ip = "''10.0.0.2''" and l = almostBlocked
      and a = "\<lparr> count = 49, windowStart = 10 \<rparr>" and now = 10, THEN conjunct1] k
  have blocks: "isBlocked ''s2'' ''10.0.0.2'' (trackAbuse 10 ''s2'' ''10.0.0.2'' almostBlocked)"
    by blast
  from abuse_block [where t = ?t and l = floodLimits and now = 300010,
      THEN conjunct2, THEN conjunct2, THEN conjunct2, THEN conjunct2, THEN conjunct1] t
  have clears: "''s2'' \<notin> blockedSockets (runTimers 300010 floodLimits)"
    "''10.0.0.2'' \<notin> blockedIPs (runTimers 300010 floodLimits)"
    "map_get (abuseCounter (runTimers 300010 floodLimits)) ''10.0.0.2:s2'' = None"
    by simp_all
  from abuse_block [where sv = ?tb and sec = defaultSecurity and cfg = defaultConfig
      and evs = twoBlocks and t = ?t1 and ev = TimersDue and now = 300010,
      THEN conjunct2, THEN conjunct2, THEN conjunct2, THEN conjunct2, THEN conjunct2,
      THEN conjunct1] t1 early
  have lasts: "''s1'' \<in> blockedSockets (limits (snd (step defaultSecurity defaultConfig
        (300010, TimersDue) ?tb)))"
    "''10.0.0.1'' \<in> blockedIPs (limits (snd (step defaultSecurity defaultConfig
        (300010, TimersDue) ?tb)))"
    "?t1 \<in> set (timers (limits (snd (step defaultSecurity defaultConfig
        (300010, TimersDue) ?tb))))"
    by simp_all
  from abuse_block [where sv = ?tb and sec = defaultSecurity and cfg = defaultConfig
      and evs = twoBlocks and t = ?t1 and ev = "FromSocket ''s1'' Disconnect" and now = 600000,
      THEN conjunct2, THEN conjunct2, THEN conjunct2, THEN conjunct2, THEN conjunct2,
      THEN conjunct1] t1 other
  have gone: "''s1'' \<in> blockedSockets (limits (snd (step defaultSecurity defaultConfig
        (600000, FromSocket ''s1'' Disconnect) ?tb)))"
    by simp
  from abuse_block [where sv = ?sv and sec = defaultSecurity and cfg = defaultConfig
      and evs = floodRun and sid = "''s2''" and ip = "''10.0.0.9''",
      THEN conjunct2, THEN conjunct2, THEN conjunct2, THEN conjunct2, THEN conjunct2,
      THEN conjunct2, THEN conjunct1] b9
  have pending: "\<exists>t'. t' \<in> set (timers (limits ?sv))
      \<and> (t_socketId t' = ''s2'' \<or> t_ip t' = ''10.0.0.9'')"
    by blast
  from abuse_block [where req = ?typing and sec = defaultSecurity and cfg = defaultConfig
      and now = 11 and sid = "''s2''" and B = "{}" and B' = "{}" and sv = ?sv,
      THEN conjunct2, THEN conjunct2, THEN conjunct2, THEN conjunct2, THEN conjunct2,
      THEN conjunct2, THEN conjunct2] ung
  have same: "step defaultSecurity defaultConfig (11, FromSocket ''s2'' ?typing)
        (withBlocks {} {} ?sv) =
       (fst (step defaultSecurity defaultConfig (11, FromSocket ''s2'' ?typing) ?sv),
        withBlocks {} {} (snd (step defaultSecurity defaultConfig
          (11, FromSocket ''s2'' ?typing) ?sv)))"
    by blast
  from b send conn still k(1) blocks t(1) clears l2 t1 after lasts(1,2,3) released gone
    pending ung same
  show ?thesis by (intro conjI)
qed

text \<open>
  The specification has every further event of a blocked socket dropped. After the flood, \<open>s2\<close>
  and its address are blocked; its \<open>typing\<close> event is relayed to the room all the same.
\<close>

theorem blocked_typing_counterexample:
  "isBlocked ''s2'' ''10.0.0.2'' (limits (run defaultSecurity defaultConfig floodRun))
   \<and> step defaultSecurity defaultConfig (11, FromSocket ''s2'' (Typing (Some ''AAAAAAAA'')))
        (run defaultSecurity defaultConfig floodRun) =
       ([Emit (Others ''AAAAAAAA'') ''user-typing''], run defaultSecurity defaultConfig floodRun)"
proof -
  have "isBlocked ''s2'' ''10.0.0.2'' (limits (run defaultSecurity defaultConfig floodRun))"
    by (simp add: floodRun_state isBlocked_def floodLimits_def)
  moreover have "step defaultSecurity defaultConfig (11, FromSocket ''s2'' (Typing (Some ''AAAAAAAA'')))
        (run defaultSecurity defaultConfig floodRun) =
       ([Emit (Others ''AAAAAAAA'') ''user-typing''], run defaultSecurity defaultConfig floodRun)"
    unfolding floodRun_state by code_simp
  ultimately show ?thesis by simp
qed

section \<open>Disconnecting\<close>

text \<open>
  C10. The \<open>disconnect\<close> handler calls \<open>removeUser\<close> once and deletes the socket's entry of
  \<open>messageRateLimiter\<close>; it does not touch \<open>abuseCounter\<close>, and \<open>removeUser\<close> takes the
  socket out of one session only. Here \<open>s2\<close> goes once over the rate limit and
  disconnects. After the sweep of the rate maps, the sweep of the sessions and the timers
  have all run, the abuse counter of \<open>s2\<close> is still there, with no timer that would
  delete it; everything else about \<open>s2\<close> is gone. After the flood the disconnect leaves
  the counter of 50 and the id in the blocked set behind. And when \<open>s2\<close>, a member of two
  sessions, disconnects, it stays a member of the second.
\<close>

theorem disconnect_leaves_residue:
  "run defaultSecurity defaultConfig oneViolation =
     \<lparr> sessions = [],
       limits = \<lparr> messageRateLimiter = [], socketRateLimiters = [], blockedSockets = {},
                  blockedIPs = {},
                  abuseCounter = [(''10.0.0.2:s2'', \<lparr> count = 1, windowStart = 10 \<rparr>)],
                  timers = [] \<rparr>,
       sockets = [(''s1'', ''10.0.0.1'')] \<rparr>
   \<and> map_get (abuseCounter (limits (snd (step defaultSecurity defaultConfig
         (11, FromSocket ''s2'' Disconnect) (run defaultSecurity defaultConfig floodRun)))))
       (abuseKeyOf ''10.0.0.2'' ''s2'') = Some \<lparr> count = 50, windowStart = 10 \<rparr>
   \<and> ''s2'' \<in> blockedSockets (limits (snd (step defaultSecurity defaultConfig
         (11, FromSocket ''s2'' Disconnect) (run defaultSecurity defaultConfig floodRun))))
   \<and> map_get (sockets (snd (step defaultSecurity defaultConfig
         (7, FromSocket ''s2'' Disconnect) (run defaultSecurity defaultConfig secondJoin))))
       ''s2'' = None
   \<and> map fst (memberships ''s2'' (sessions (snd (step defaultSecurity defaultConfig
         (7, FromSocket ''s2'' Disconnect) (run defaultSecurity defaultConfig secondJoin))))) =
       [''BBBBBBBB'']"
proof -
  have "run defaultSecurity defaultConfig oneViolation =
     \<lparr> sessions = [],
       limits = \<lparr> messageRateLimiter = [], socketRateLimiters = [], blockedSockets = {},
                  blockedIPs = {},
                  abuseCounter = [(''10.0.0.2:s2'', \<lparr> count = 1, windowStart = 10 \<rparr>)],
                  timers = [] \<rparr>,
       sockets = [(''s1'', ''10.0.0.1'')] \<rparr>"
    by code_simp
  moreover have "map_get (abuseCounter (limits (snd (step defaultSecurity defaultConfig
         (11, FromSocket ''s2'' Disconnect) (run defaultSecurity defaultConfig floodRun)))))
       (abuseKeyOf ''10.0.0.2'' ''s2'') = Some \<lparr> count = 50, windowStart = 10 \<rparr>
     \<and> ''s2'' \<in> blockedSockets (limits (snd (step defaultSecurity defaultConfig
         (11, FromSocket ''s2'' Disconnect) (run defaultSecurity defaultConfig floodRun))))"
    unfolding floodRun_state by code_simp
  moreover have "map_get (sockets (snd (step defaultSecurity defaultConfig
         (7, FromSocket ''s2'' Disconnect) (run defaultSecurity defaultConfig secondJoin))))
       ''s2'' = None
     \<and> map fst (memberships ''s2'' (sessions (snd (step defaultSecurity defaultConfig
         (7, FromSocket ''s2'' Disconnect) (run defaultSecurity defaultConfig secondJoin))))) =
       [''BBBBBBBB'']"
    by code_simp
  ultimately show ?thesis by simp
qed

end
